theory Spec2Isabelle
  imports Main
begin

section \<open>Data model\<close>

text \<open>
  The conversation entries of \<^verbatim>\<open>types.ts\<close>.  A field that the code can leave
  \<^verbatim>\<open>undefined\<close> at run time is an option: \<^verbatim>\<open>content\<close> and \<^verbatim>\<open>result\<close> are
  assigned \<^verbatim>\<open>toolResponse?.content\<close>, which is \<^verbatim>\<open>undefined\<close> when no response is
  given.  \<^verbatim>\<open>Record<string, string>\<close> is an association list that is carried through
  untouched.
\<close>

datatype Role = User | Agent | System | Tool

datatype ToolCallRole = TcUser | TcTool | TcSystem | TcAssistant

record ToolCall =
  role :: ToolCallRole
  result :: "string option"
  callId :: string
  toolName :: string
  args :: "(string \<times> string) list"

text \<open>
  Modelled from the spec: the types \<^verbatim>\<open>ToolCall\<close> and \<^verbatim>\<open>ToolResponse\<close> of
  \<^verbatim>\<open>llama-stack-client\<close> are imported by the code and declared outside the repository.
  A tool call has an identifier, a tool name and string-keyed arguments; a tool response
  has a content.  These are the fields \<^verbatim>\<open>addToolResponse\<close> reads, at the types the
  code casts them to (\<^verbatim>\<open>call_id\<close> is a string, \<^verbatim>\<open>content as string\<close>,
  \<^verbatim>\<open>arguments as Record<string, string>\<close>).
\<close>

record LlamaToolCall =
  call_id :: string
  tool_name :: string
  arguments :: "(string \<times> string) list"

record LlamaToolResponse =
  call_id :: string
  tool_name :: string
  content :: string

text \<open>
  Modelled from the spec: the final output message of a turn, declared in
  \<^verbatim>\<open>llama-stack-client\<close>; the reducer reads its \<^verbatim>\<open>content\<close>, cast to string.
\<close>

record OutputMessage =
  content :: string

text \<open>\<^verbatim>\<open>ChatMessage\<close> of \<^verbatim>\<open>types.ts\<close>.\<close>

record ChatMessage =
  role :: Role
  content :: "string option"
  createdAt :: int
  toolCall :: "ToolCall option"

text \<open>
  Modelled from the spec: the type \<^verbatim>\<open>AgentTurnResponseStreamChunk\<close> of
  \<^verbatim>\<open>llama-stack-client\<close> is declared outside the repository.  A stream chunk has the
  wire shape \<^verbatim>\<open>{ event: { payload: { event_type, ... } } }\<close>; a \<^verbatim>\<open>step_progress\<close>
  payload carries a tagged \<^verbatim>\<open>delta\<close>, a \<^verbatim>\<open>step_complete\<close> payload carries
  \<^verbatim>\<open>step_details\<close> tagged by \<^verbatim>\<open>step_type\<close> with the parallel sequences
  \<^verbatim>\<open>tool_calls\<close> and \<^verbatim>\<open>tool_responses\<close>, a \<^verbatim>\<open>turn_complete\<close> payload carries a
  \<^verbatim>\<open>turn\<close> with an optional \<^verbatim>\<open>output_message\<close>.  The chunk is parsed JSON, so every
  object on the path the reducer dereferences may be missing (\<^verbatim>\<open>test-utils.tsx\<close> builds
  such partial chunks); reading a property of a missing object raises \<^verbatim>\<open>TypeError\<close>.
  The field \<^verbatim>\<open>delta.text\<close> is named \<open>text_field\<close> here.
\<close>

record Delta =
  type :: string
  text_field :: string

record StepDetails =
  step_type :: string
  tool_calls :: "LlamaToolCall list option"
  tool_responses :: "LlamaToolResponse list option"

record Turn =
  output_message :: "OutputMessage option"

record Payload =
  event_type :: "string option"
  delta :: "Delta option"
  step_details :: "StepDetails option"
  turn :: "Turn option"

record Event =
  payload :: "Payload option"

record Chunk =
  event :: "Event option"

datatype js_error = TypeError

section \<open>The reducer\<close>

text \<open>
  \<^verbatim>\<open>updateMessage\<close>, the closure inside \<^verbatim>\<open>updateChunk\<close>:
  \<^verbatim>\<open>if (delta) return current + delta; return full!;\<close>
  The test \<^verbatim>\<open>if (delta)\<close> is JavaScript truthiness: an absent and an empty string are
  both falsy.  \<^verbatim>\<open>current + delta\<close> with \<^verbatim>\<open>current\<close> undefined yields the text
  \<^verbatim>\<open>"undefined"\<close> followed by the delta.
\<close>

definition js_plus :: "string option \<Rightarrow> string \<Rightarrow> string" where
  "js_plus current d = (case current of None \<Rightarrow> ''undefined'' @ d | Some c \<Rightarrow> c @ d)"

definition updateMessage :: "string option \<Rightarrow> string option \<Rightarrow> string option \<Rightarrow> string option" where
  "updateMessage delta_arg full current =
     (case delta_arg of
        None \<Rightarrow> full
      | Some d \<Rightarrow> if d \<noteq> [] then Some (js_plus current d) else full)"

text \<open>
  \<^verbatim>\<open>updateChunk(prevMessages, { delta, full })\<close>.  The argument \<open>now\<close> is the value of
  \<^verbatim>\<open>Math.floor(Date.now() / 1000)\<close>, read only when a message is appended.
\<close>

definition updateChunk ::
  "int \<Rightarrow> ChatMessage list \<Rightarrow> string option \<Rightarrow> string option \<Rightarrow> ChatMessage list" where
  "updateChunk now prevMessages delta_arg full =
     (if prevMessages \<noteq> [] \<and> ChatMessage.role (last prevMessages) = Agent
      then prevMessages[length prevMessages - 1 :=
             (last prevMessages)\<lparr>ChatMessage.content :=
                updateMessage delta_arg full (ChatMessage.content (last prevMessages))\<rparr>]
      else prevMessages @
             [\<lparr>ChatMessage.role = Agent,
               content = updateMessage delta_arg full (Some ''''),
               createdAt = now,
               toolCall = None\<rparr>])"

text \<open>\<^verbatim>\<open>Array.prototype.findIndex\<close>; \<open>None\<close> stands for the result \<^verbatim>\<open>-1\<close>.\<close>

fun findIndex :: "('a \<Rightarrow> bool) \<Rightarrow> 'a list \<Rightarrow> nat option" where
  "findIndex P [] = None"
| "findIndex P (x # xs) = (if P x then Some 0 else map_option Suc (findIndex P xs))"

text \<open>The predicate \<^verbatim>\<open>(msg) => msg.toolCall?.callId === toolCallId\<close>.\<close>

definition hasCallId :: "string \<Rightarrow> ChatMessage \<Rightarrow> bool" where
  "hasCallId toolCallId msg =
     (case toolCall msg of None \<Rightarrow> False | Some t \<Rightarrow> callId t = toolCallId)"

text \<open>The message built at the top of \<^verbatim>\<open>addToolResponse\<close>.\<close>

definition toolMessage :: "int \<Rightarrow> LlamaToolCall \<Rightarrow> LlamaToolResponse option \<Rightarrow> ChatMessage" where
  "toolMessage now tc toolResponse =
     \<lparr>ChatMessage.role = Tool,
      content = map_option LlamaToolResponse.content toolResponse,
      createdAt = now,
      toolCall = Some
        \<lparr>ToolCall.role = TcTool,
         result = map_option LlamaToolResponse.content toolResponse,
         callId = LlamaToolCall.call_id tc,
         toolName = LlamaToolCall.tool_name tc,
         args = arguments tc\<rparr>\<rparr>"

text \<open>
  \<^verbatim>\<open>addToolResponse(prevMessages, toolCall, toolResponse?)\<close>, the tool-call correlator
  (\<open>upsertToolCall\<close> in the specification).  \<^verbatim>\<open>Date.now()\<close> is read once per call.
\<close>

definition addToolResponse ::
  "int \<Rightarrow> ChatMessage list \<Rightarrow> LlamaToolCall \<Rightarrow> LlamaToolResponse option \<Rightarrow> ChatMessage list" where
  "addToolResponse now prevMessages tc toolResponse =
     (case findIndex (hasCallId (LlamaToolCall.call_id tc)) prevMessages of
        Some existingMessageIndex \<Rightarrow>
          prevMessages[existingMessageIndex := toolMessage now tc toolResponse]
      | None \<Rightarrow> prevMessages @ [toolMessage now tc toolResponse])"

text \<open>\<^verbatim>\<open>addUserRequest(prevMessages, message)\<close>; the query text may still be undefined.\<close>

definition addUserRequest :: "int \<Rightarrow> ChatMessage list \<Rightarrow> string option \<Rightarrow> ChatMessage list" where
  "addUserRequest now prevMessages message =
     prevMessages @
       [\<lparr>ChatMessage.role = User, content = message, createdAt = now, toolCall = None\<rparr>]"

text \<open>\<^verbatim>\<open>toolStep.tool_responses?.[index]\<close>: undefined when the array is missing or too short.\<close>

definition responseAt :: "LlamaToolResponse list option \<Rightarrow> nat \<Rightarrow> LlamaToolResponse option" where
  "responseAt responses index =
     (case responses of
        None \<Rightarrow> None
      | Some rs \<Rightarrow> if index < length rs then Some (rs ! index) else None)"

text \<open>
  The loop of \<^verbatim>\<open>toolStep.tool_calls.reduce((prevMessages, toolCall, index) => ..., prevMessages)\<close>:
  \<open>index\<close> counts the elements already visited.  Each callback invocation reads the
  clock once; \<open>clock k\<close> is the \<open>k\<close>-th reading taken while one chunk is reduced.
\<close>

fun reduceToolCalls ::
  "(nat \<Rightarrow> int) \<Rightarrow> LlamaToolResponse list option \<Rightarrow> ChatMessage list \<Rightarrow>
     LlamaToolCall list \<Rightarrow> nat \<Rightarrow> ChatMessage list" where
  "reduceToolCalls clock responses prevMessages [] index = prevMessages"
| "reduceToolCalls clock responses prevMessages (tc # rest) index =
     reduceToolCalls clock responses
       (addToolResponse (clock index) prevMessages tc (responseAt responses index))
       rest (Suc index)"

text \<open>
  \<^verbatim>\<open>updateMessagesFromChunk(prevMessages, chunk)\<close>, the reducer.  The \<^verbatim>\<open>switch\<close> on
  \<^verbatim>\<open>payload.event_type\<close> is the chain of comparisons below, in the order of the source;
  a property read on a missing object is the result \<open>Inl TypeError\<close>.
\<close>

definition updateMessagesFromChunk ::
  "(nat \<Rightarrow> int) \<Rightarrow> ChatMessage list \<Rightarrow> Chunk \<Rightarrow> js_error + ChatMessage list" where
  "updateMessagesFromChunk clock prevMessages chunk =
     (case event chunk of
        None \<Rightarrow> Inl TypeError
      | Some ev \<Rightarrow>
     (case payload ev of
        None \<Rightarrow> Inl TypeError
      | Some p \<Rightarrow>
          if event_type p = Some ''turn_start'' then Inr prevMessages
          else if event_type p = Some ''step_start'' then Inr prevMessages
          else if event_type p = Some ''step_progress'' then
            (case delta p of
               None \<Rightarrow> Inl TypeError
             | Some d \<Rightarrow>
                 if type d = ''text''
                 then Inr (updateChunk (clock 0) prevMessages (Some (text_field d)) None)
                 else Inr prevMessages)
          else if event_type p = Some ''step_complete'' then
            (case step_details p of
               None \<Rightarrow> Inl TypeError
             | Some toolStep \<Rightarrow>
                 if step_type toolStep = ''tool_execution'' then
                   (case tool_calls toolStep of
                      None \<Rightarrow> Inl TypeError
                    | Some calls \<Rightarrow>
                        Inr (reduceToolCalls clock (tool_responses toolStep) prevMessages calls 0))
                 else Inr prevMessages)
          else if event_type p = Some ''turn_complete'' then
            (case turn p of
               None \<Rightarrow> Inl TypeError
             | Some t \<Rightarrow>
                 (case output_message t of
                    Some om \<Rightarrow>
                      Inr (updateChunk (clock 0) prevMessages None (Some (OutputMessage.content om)))
                  | None \<Rightarrow> Inr prevMessages))
          else if event_type p = Some ''turn_awaiting_input'' then Inr prevMessages
          else Inr prevMessages))"

section \<open>The session and turn driver\<close>

text \<open>
  \<^verbatim>\<open>handleSubmit\<close> of \<^verbatim>\<open>PersaiExplorer\<close>.  The component state is the record
  \<open>ExplorerState\<close>; everything the handler awaits is given by the environment of one
  submission: the configured backend url, the datasource path, the clock reading of
  \<^verbatim>\<open>addUserRequest\<close>, the outcome of \<^verbatim>\<open>client.sessionCreate()\<close> and of
  \<^verbatim>\<open>client.turnCreate(...)\<close>.  A stream is the chunks it yields, each with the clock
  readings available while it is reduced, and the way it ends.
\<close>

text \<open>
  A value thrown by the client or the stream: an instance of \<^verbatim>\<open>Error\<close> with its
  message, or any other value, with its \<^verbatim>\<open>message\<close> property when it has one.
\<close>

datatype thrown = ErrorInstance string | OtherValue "string option"

fun failureMessage :: "thrown \<Rightarrow> string option" where
  "failureMessage (ErrorInstance m) = Some m"
| "failureMessage (OtherValue m) = m"

text \<open>\<^verbatim>\<open>error instanceof Error ? error.message : "An unexpected error occurred"\<close>\<close>

fun errorText :: "thrown \<Rightarrow> string" where
  "errorText (ErrorInstance m) = m"
| "errorText (OtherValue m) = ''An unexpected error occurred''"

datatype stream_end = Exhausted | Raises thrown

record TurnStream =
  chunks :: "((nat \<Rightarrow> int) \<times> Chunk) list"
  ending :: stream_end

datatype api_call = SessionCreate | TurnCreate string string "string option"

record ExplorerState =
  queryText :: "string option"
  sessionId :: "string option"
  messages :: "ChatMessage list"
  isStreaming :: bool
  error :: "string option"

record SubmitEnv =
  persaiUrl :: "string option"
  datasourcePath :: "string option"
  userClock :: int
  sessionCreateResult :: "thrown + string"
  turnCreateResult :: "thrown + TurnStream"

text \<open>
  JavaScript truthiness of a \<^verbatim>\<open>string | undefined\<close>: \<^verbatim>\<open>if (!x)\<close> holds for both
  \<^verbatim>\<open>undefined\<close> and the empty string.
\<close>

fun truthy :: "string option \<Rightarrow> bool" where
  "truthy None = False"
| "truthy (Some s) = (s \<noteq> [])"

definition missingUrlText :: string where
  "missingUrlText =
     ''Could not determine PersAI backend url ('' @ [CHR 0x27] @ ''persai_url'' @ [CHR 0x27] @
     '' global variable is missing). Was the plugin installed properly?''"

definition missingPathText :: string where
  "missingPathText = ''Could not determine the datasource path''"

text \<open>
  The \<^verbatim>\<open>for await\<close> loop: every chunk is applied to the store with
  \<^verbatim>\<open>setMessages((prev) => updateMessagesFromChunk(prev, chunk))\<close>.  The updater runs while
  React renders, outside the handler's \<^verbatim>\<open>try\<close>, so an exception of the reducer is
  not caught by the handler: it is the result \<open>Inl\<close> of the whole submission.
\<close>

fun consume :: "ChatMessage list \<Rightarrow> ((nat \<Rightarrow> int) \<times> Chunk) list \<Rightarrow> js_error + ChatMessage list" where
  "consume msgs [] = Inr msgs"
| "consume msgs ((clock, chunk) # rest) =
     (case updateMessagesFromChunk clock msgs chunk of
        Inl e \<Rightarrow> Inl e
      | Inr msgs' \<Rightarrow> consume msgs' rest)"

text \<open>The \<^verbatim>\<open>catch\<close> block: \<^verbatim>\<open>setError(...); setIsStreaming(false)\<close>.\<close>

definition failed :: "thrown \<Rightarrow> ExplorerState \<Rightarrow> ExplorerState" where
  "failed e st = st\<lparr>error := Some (errorText e), isStreaming := False\<rparr>"

text \<open>From \<^verbatim>\<open>client.turnCreate\<close> to the end of the \<^verbatim>\<open>try\<close> statement.\<close>

definition turnPhase ::
  "SubmitEnv \<Rightarrow> ExplorerState \<Rightarrow> string \<Rightarrow> string \<Rightarrow> string option \<Rightarrow> api_call list \<Rightarrow>
     js_error + (ExplorerState \<times> api_call list)" where
  "turnPhase env st newSessionId path message calls =
     (case turnCreateResult env of
        Inl e \<Rightarrow> Inr (failed e st, calls @ [TurnCreate newSessionId path message])
      | Inr response \<Rightarrow>
          (case consume (messages st) (chunks response) of
             Inl err \<Rightarrow> Inl err
           | Inr msgs \<Rightarrow>
               (case ending response of
                  Exhausted \<Rightarrow>
                    Inr (st\<lparr>messages := msgs, isStreaming := False\<rparr>,
                         calls @ [TurnCreate newSessionId path message])
                | Raises e \<Rightarrow>
                    Inr (failed e (st\<lparr>messages := msgs\<rparr>),
                         calls @ [TurnCreate newSessionId path message]))))"

text \<open>
  The body of \<^verbatim>\<open>if (!newSessionId) { ... }\<close> followed by the turn: the session is
  created, its identifier stored with \<^verbatim>\<open>setSessionId\<close> and used for the turn.
\<close>

definition createSessionThenTurn ::
  "SubmitEnv \<Rightarrow> ExplorerState \<Rightarrow> string \<Rightarrow> string option \<Rightarrow>
     js_error + (ExplorerState \<times> api_call list)" where
  "createSessionThenTurn env st path message =
     (case sessionCreateResult env of
        Inl e \<Rightarrow> Inr (failed e st, [SessionCreate])
      | Inr session_id \<Rightarrow>
          turnPhase env (st\<lparr>sessionId := Some session_id\<rparr>) session_id path message
            [SessionCreate])"

text \<open>
  The \<^verbatim>\<open>try\<close> block.  \<^verbatim>\<open>if (!newSessionId)\<close> is the truthiness test on the stored
  identifier: it holds when none is stored and when the empty string is.
\<close>

definition sessionPhase ::
  "SubmitEnv \<Rightarrow> ExplorerState \<Rightarrow> string \<Rightarrow> string option \<Rightarrow>
     js_error + (ExplorerState \<times> api_call list)" where
  "sessionPhase env st path message =
     (case sessionId st of
        None \<Rightarrow> createSessionThenTurn env st path message
      | Some newSessionId \<Rightarrow>
          if newSessionId = [] then createSessionThenTurn env st path message
          else turnPhase env st newSessionId path message [])"

text \<open>
  \<^verbatim>\<open>handleSubmit\<close>: the new component state and the calls made on the client, in
  order.
\<close>

definition handleSubmit ::
  "SubmitEnv \<Rightarrow> ExplorerState \<Rightarrow> js_error + (ExplorerState \<times> api_call list)" where
  "handleSubmit env st =
     (if \<not> truthy (persaiUrl env) then Inr (st\<lparr>error := Some missingUrlText\<rparr>, [])
      else
        (case datasourcePath env of
           None \<Rightarrow> Inr (st\<lparr>error := Some missingPathText\<rparr>, [])
         | Some path \<Rightarrow>
             if path = [] then Inr (st\<lparr>error := Some missingPathText\<rparr>, [])
             else
               sessionPhase env
                 (st\<lparr>error := None,
                     messages := addUserRequest (userClock env) (messages st) (queryText st),
                     queryText := Some [],
                     isStreaming := True\<rparr>)
                 path (queryText st)))"

section \<open>Notions of the specification\<close>

text \<open>
  The call identifier a message carries, if any.  The correlator looks messages up by
  this value alone (\<open>hasCallId\<close>); the reducer attaches a \<^verbatim>\<open>toolCall\<close> payload only to
  the messages of role \<open>Tool\<close> that \<open>addToolResponse\<close> builds.
\<close>

definition callIdOf :: "ChatMessage \<Rightarrow> string option" where
  "callIdOf msg = map_option callId (toolCall msg)"

definition callIds :: "ChatMessage list \<Rightarrow> string list" where
  "callIds msgs = List.map_filter callIdOf msgs"

text \<open>The store invariant: at most one tool message per distinct call identifier.\<close>

definition oneToolMessagePerCallId :: "ChatMessage list \<Rightarrow> bool" where
  "oneToolMessagePerCallId msgs = distinct (callIds msgs)"

text \<open>A \<^verbatim>\<open>toolCall\<close> payload occurs on messages of role \<open>Tool\<close> only.\<close>

definition toolCallOnToolOnly :: "ChatMessage list \<Rightarrow> bool" where
  "toolCallOnToolOnly msgs = list_all (\<lambda>m. toolCall m = None \<or> ChatMessage.role m = Tool) msgs"

text \<open>
  The sequential fold of the specification: the pairs of a tool-execution step, each
  call with the response at the same position when there is one, and the left-to-right
  fold of the correlator over them.  The position also selects the clock reading.
\<close>

definition positionalPairs ::
  "LlamaToolCall list \<Rightarrow> LlamaToolResponse list \<Rightarrow>
     (nat \<times> LlamaToolCall \<times> LlamaToolResponse option) list" where
  "positionalPairs calls responses =
     map (\<lambda>i. (i, calls ! i, if i < length responses then Some (responses ! i) else None))
       [0..<length calls]"

definition foldUpserts ::
  "(nat \<Rightarrow> int) \<Rightarrow> ChatMessage list \<Rightarrow>
     (nat \<times> LlamaToolCall \<times> LlamaToolResponse option) list \<Rightarrow> ChatMessage list" where
  "foldUpserts clock msgs pairs =
     foldl (\<lambda>acc (i, tc, r). addToolResponse (clock i) acc tc r) msgs pairs"

text \<open>The store ordered by creation time, ties permitted.\<close>

definition createdAtSorted :: "ChatMessage list \<Rightarrow> bool" where
  "createdAtSorted msgs = sorted (map createdAt msgs)"

text \<open>The store is ordered by creation time and no message is newer than \<open>t\<close>.\<close>

definition orderedUpTo :: "int \<Rightarrow> ChatMessage list \<Rightarrow> bool" where
  "orderedUpTo t msgs = (createdAtSorted msgs \<and> list_all (\<lambda>m. createdAt m \<le> t) msgs)"

text \<open>The tool calls a chunk makes the reducer fold; none for every other chunk.\<close>

definition toolCallsOf :: "Chunk \<Rightarrow> LlamaToolCall list" where
  "toolCallsOf chunk =
     (case event chunk of
        None \<Rightarrow> []
      | Some ev \<Rightarrow>
     (case payload ev of
        None \<Rightarrow> []
      | Some p \<Rightarrow>
          if event_type p = Some ''step_complete'' then
            (case step_details p of
               None \<Rightarrow> []
             | Some toolStep \<Rightarrow>
                 if step_type toolStep = ''tool_execution''
                 then (case tool_calls toolStep of None \<Rightarrow> [] | Some calls \<Rightarrow> calls)
                 else [])
          else []))"

text \<open>
  Every tool call of the chunk appends: its identifiers are pairwise different and none
  of them is in the store yet.
\<close>

definition freshCalls :: "ChatMessage list \<Rightarrow> Chunk \<Rightarrow> bool" where
  "freshCalls msgs chunk =
     (distinct (map LlamaToolCall.call_id (toolCallsOf chunk)) \<and>
      list_all (\<lambda>tc. LlamaToolCall.call_id tc \<notin> set (callIds msgs)) (toolCallsOf chunk))"

text \<open>A message with its creation time masked, to compare stores up to the clock.\<close>

definition forgetCreatedAt :: "ChatMessage \<Rightarrow> ChatMessage" where
  "forgetCreatedAt m = m\<lparr>createdAt := 0\<rparr>"

definition forgetTimes :: "js_error + ChatMessage list \<Rightarrow> js_error + ChatMessage list" where
  "forgetTimes res = map_sum id (map forgetCreatedAt) res"

section \<open>Example chunks and stores\<close>

text \<open>
  The chunk builders of \<^verbatim>\<open>test-utils.tsx\<close> (\<^verbatim>\<open>streamChunks\<close>): only the fields of
  the event type are present.  \<open>toolExecution\<close> takes the calls and responses as given.
\<close>

definition chunkOf :: "Payload \<Rightarrow> Chunk" where
  "chunkOf p = \<lparr>event = Some \<lparr>payload = Some p\<rparr>\<rparr>"

definition turnStart :: Chunk where
  "turnStart =
     chunkOf \<lparr>event_type = Some ''turn_start'', delta = None, step_details = None, turn = None\<rparr>"

definition textProgress :: "string \<Rightarrow> Chunk" where
  "textProgress txt =
     chunkOf \<lparr>event_type = Some ''step_progress'',
              delta = Some \<lparr>type = ''text'', text_field = txt\<rparr>,
              step_details = None, turn = None\<rparr>"

definition toolExecution :: "LlamaToolCall list \<Rightarrow> LlamaToolResponse list \<Rightarrow> Chunk" where
  "toolExecution calls responses =
     chunkOf \<lparr>event_type = Some ''step_complete'', delta = None,
              step_details = Some \<lparr>step_type = ''tool_execution'',
                                   tool_calls = Some calls,
                                   tool_responses = Some responses\<rparr>,
              turn = None\<rparr>"

definition turnComplete :: "string \<Rightarrow> Chunk" where
  "turnComplete message =
     chunkOf \<lparr>event_type = Some ''turn_complete'', delta = None, step_details = None,
              turn = Some \<lparr>output_message = Some \<lparr>OutputMessage.content = message\<rparr>\<rparr>\<rparr>"

text \<open>A \<^verbatim>\<open>step_progress\<close> chunk that lacks its \<^verbatim>\<open>delta\<close>.\<close>

definition progressWithoutDelta :: Chunk where
  "progressWithoutDelta =
     chunkOf \<lparr>event_type = Some ''step_progress'', delta = None, step_details = None,
              turn = None\<rparr>"

definition agentMsg :: "string \<Rightarrow> int \<Rightarrow> ChatMessage" where
  "agentMsg txt t = \<lparr>ChatMessage.role = Agent, content = Some txt, createdAt = t, toolCall = None\<rparr>"

definition userMsg :: "string \<Rightarrow> int \<Rightarrow> ChatMessage" where
  "userMsg txt t = \<lparr>ChatMessage.role = User, content = Some txt, createdAt = t, toolCall = None\<rparr>"

definition callC1 :: LlamaToolCall where
  "callC1 = \<lparr>LlamaToolCall.call_id = ''c1'', tool_name = ''query'', arguments = [(''q'', ''up'')]\<rparr>"

definition callC2 :: LlamaToolCall where
  "callC2 = \<lparr>LlamaToolCall.call_id = ''c2'', tool_name = ''query'', arguments = [(''q'', ''cpu'')]\<rparr>"

definition responseC1 :: LlamaToolResponse where
  "responseC1 = \<lparr>LlamaToolResponse.call_id = ''c1'', tool_name = ''query'', content = ''ok''\<rparr>"

definition storeC1 :: "ChatMessage list" where
  "storeC1 = [userMsg ''hi'' 1, toolMessage 2 callC1 None, toolMessage 2 callC2 None]"

definition storeResult :: "ChatMessage list" where
  "storeResult = [userMsg ''hi'' 1, toolMessage 2 callC1 (Some responseC1), agentMsg ''done'' 3]"

text \<open>Example submissions: the idle component, an environment and two streams.\<close>

definition idleState :: "string \<Rightarrow> ExplorerState" where
  "idleState q =
     \<lparr>queryText = Some q, sessionId = None, messages = [], isStreaming = False, error = None\<rparr>"

definition envWith :: "thrown + string \<Rightarrow> thrown + TurnStream \<Rightarrow> SubmitEnv" where
  "envWith sessionResult turnResult =
     \<lparr>persaiUrl = Some ''http://persai'', datasourcePath = Some ''/proxy'', userClock = 1,
      sessionCreateResult = sessionResult, turnCreateResult = turnResult\<rparr>"

definition streamRaising :: "thrown \<Rightarrow> TurnStream" where
  "streamRaising e = \<lparr>chunks = [(\<lambda>k. 2, textProgress ''A'')], ending = Raises e\<rparr>"

definition streamDone :: TurnStream where
  "streamDone = \<lparr>chunks = [(\<lambda>k. 2, turnStart), (\<lambda>k. 2, turnComplete ''ok'')], ending = Exhausted\<rparr>"

text \<open>The component after a first submission answered by \<open>streamDone\<close>.\<close>

definition afterFirst :: "string \<Rightarrow> ExplorerState" where
  "afterFirst sid =
     \<lparr>queryText = Some [], sessionId = Some sid,
      messages = [userMsg ''hi'' 1, agentMsg ''ok'' 2], isStreaming = False, error = None\<rparr>"

text \<open>The component after a first submission whose session creation failed.\<close>

definition afterFailedCreate :: ExplorerState where
  "afterFailedCreate =
     \<lparr>queryText = Some [], sessionId = None, messages = [userMsg ''hi'' 1],
      isStreaming = False, error = Some ''Network error''\<rparr>"

section \<open>Lookup by call identifier\<close>

lemma hasCallId_iff: "hasCallId c m \<longleftrightarrow> callIdOf m = Some c"
  by (auto simp: hasCallId_def callIdOf_def split: option.splits)

lemma findIndex_None_iff: "findIndex P xs = None \<longleftrightarrow> (\<forall>x\<in>set xs. \<not> P x)"
  by (induction xs) auto

lemma findIndex_Some:
  "findIndex P xs = Some i \<Longrightarrow> i < length xs \<and> P (xs ! i) \<and> (\<forall>j<i. \<not> P (xs ! j))"
proof (induction xs arbitrary: i)
  case Nil
  then show ?case by simp
next
  case (Cons x xs)
  show ?case
  proof (cases "P x")
    case True
    with Cons.prems show ?thesis by simp
  next
    case False
    with Cons.prems obtain k where k: "findIndex P xs = Some k" "i = Suc k"
      by auto
    from Cons.IH[OF k(1)] False k(2) show ?thesis
      by (auto simp: less_Suc_eq_0_disj)
  qed
qed

lemma callIds_append: "callIds (xs @ ys) = callIds xs @ callIds ys"
  by (simp add: callIds_def map_filter_def)

lemma callIds_update_same:
  "i < length msgs \<Longrightarrow> callIdOf m = callIdOf (msgs ! i) \<Longrightarrow> callIds (msgs[i := m]) = callIds msgs"
proof (induction msgs arbitrary: i)
  case Nil
  then show ?case by simp
next
  case (Cons a msgs)
  then show ?case
    by (cases i) (auto simp: callIds_def map_filter_def)
qed

lemma set_callIds: "c \<in> set (callIds msgs) \<longleftrightarrow> (\<exists>m\<in>set msgs. hasCallId c m)"
  by (force simp: callIds_def map_filter_def hasCallId_iff)

lemma callIdOf_toolMessage: "callIdOf (toolMessage now tc r) = Some (LlamaToolCall.call_id tc)"
  by (simp add: callIdOf_def toolMessage_def)

lemma addToolResponse_preserves_unique:
  assumes "oneToolMessagePerCallId msgs"
  shows "oneToolMessagePerCallId (addToolResponse now msgs tc r)"
proof (cases "findIndex (hasCallId (LlamaToolCall.call_id tc)) msgs")
  case None
  then have "LlamaToolCall.call_id tc \<notin> set (callIds msgs)"
    by (simp add: findIndex_None_iff set_callIds)
  moreover have "callIds [toolMessage now tc r] = [LlamaToolCall.call_id tc]"
    by (simp add: callIds_def map_filter_def callIdOf_toolMessage)
  ultimately show ?thesis
    using assms None by (simp add: addToolResponse_def oneToolMessagePerCallId_def callIds_append)
next
  case (Some i)
  from findIndex_Some[OF Some]
  have "i < length msgs" "callIdOf (msgs ! i) = Some (LlamaToolCall.call_id tc)"
    by (simp_all add: hasCallId_iff)
  then have "callIds (msgs[i := toolMessage now tc r]) = callIds msgs"
    by (simp add: callIds_update_same callIdOf_toolMessage)
  with assms Some show ?thesis
    by (simp add: addToolResponse_def oneToolMessagePerCallId_def)
qed

lemma callIds_updateChunk: "callIds (updateChunk now msgs d f) = callIds msgs"
proof (cases "msgs \<noteq> [] \<and> ChatMessage.role (last msgs) = Agent")
  case True
  then have "length msgs - 1 < length msgs" by (cases msgs) auto
  moreover have "msgs ! (length msgs - 1) = last msgs" using True by (simp add: last_conv_nth)
  ultimately show ?thesis using True
    by (simp add: updateChunk_def callIds_update_same callIdOf_def)
next
  case False
  then show ?thesis
    by (auto simp add: updateChunk_def callIds_append callIds_def map_filter_def callIdOf_def)
qed

lemma reduceToolCalls_preserves_unique:
  "oneToolMessagePerCallId msgs \<Longrightarrow>
   oneToolMessagePerCallId (reduceToolCalls clock rs msgs calls index)"
  by (induction calls arbitrary: msgs index) (auto simp: addToolResponse_preserves_unique)

text \<open>The three shapes of a successful reduction step.\<close>

lemma reducer_cases:
  assumes "updateMessagesFromChunk clock msgs chunk = Inr msgs'"
  shows "msgs' = msgs \<or> (\<exists>d f. msgs' = updateChunk (clock 0) msgs d f)
         \<or> (\<exists>rs. msgs' = reduceToolCalls clock rs msgs (toolCallsOf chunk) 0)"
  using assms unfolding updateMessagesFromChunk_def toolCallsOf_def
  by (auto split: option.splits if_splits)

lemma reducer_preserves_unique:
  assumes "oneToolMessagePerCallId msgs" "updateMessagesFromChunk clock msgs chunk = Inr msgs'"
  shows "oneToolMessagePerCallId msgs'"
proof -
  have "oneToolMessagePerCallId (updateChunk now msgs d f)" for now d f
    using assms(1) by (simp add: oneToolMessagePerCallId_def callIds_updateChunk)
  with reducer_cases[OF assms(2)] assms(1) show ?thesis
    by (auto simp: reduceToolCalls_preserves_unique)
qed

lemma callIds_Cons:
  "callIds (a # msgs) = (case callIdOf a of None \<Rightarrow> [] | Some c \<Rightarrow> [c]) @ callIds msgs"
  by (auto simp: callIds_def map_filter_def split: option.splits)

lemma unique_index:
  assumes "distinct (callIds msgs)" "i < length msgs" "j < length msgs"
    "callIdOf (msgs ! i) = Some c" "callIdOf (msgs ! j) = Some c"
  shows "i = j"
  using assms
proof (induction msgs arbitrary: i j)
  case Nil
  then show ?case by simp
next
  case (Cons a msgs)
  have in_ids: "c \<in> set (callIds msgs)" if "k < length msgs" "callIdOf (msgs ! k) = Some c" for k
    using that by (auto simp: set_callIds hasCallId_iff)
  have d: "distinct (callIds msgs)" and a: "callIdOf a = Some c \<Longrightarrow> c \<notin> set (callIds msgs)"
    using Cons.prems(1) by (auto simp: callIds_Cons)
  show ?case
  proof (cases i)
    case 0
    show ?thesis
    proof (cases j)
      case 0
      with \<open>i = 0\<close> show ?thesis by simp
    next
      case (Suc j')
      with Cons.prems 0 a in_ids[of j'] show ?thesis by auto
    qed
  next
    case (Suc i')
    show ?thesis
    proof (cases j)
      case 0
      with Cons.prems Suc a in_ids[of i'] show ?thesis by auto
    next
      case (Suc j')
      with Cons.prems \<open>i = Suc i'\<close> Cons.IH[OF d, of i' j'] show ?thesis by auto
    qed
  qed
qed

lemma addToolResponse_at_unique:
  assumes "oneToolMessagePerCallId msgs" "i < length msgs" "hasCallId (LlamaToolCall.call_id tc) (msgs ! i)"
  shows "addToolResponse now msgs tc r = msgs[i := toolMessage now tc r]"
proof -
  have "\<exists>m\<in>set msgs. hasCallId (LlamaToolCall.call_id tc) m"
    using assms(2,3) by auto
  then obtain k where k: "findIndex (hasCallId (LlamaToolCall.call_id tc)) msgs = Some k"
    using findIndex_None_iff[of "hasCallId (LlamaToolCall.call_id tc)" msgs] by (cases "findIndex (hasCallId (LlamaToolCall.call_id tc)) msgs") auto
  from findIndex_Some[OF k] have "k < length msgs" "hasCallId (LlamaToolCall.call_id tc) (msgs ! k)" by simp_all
  with assms have "k = i"
    using unique_index[of msgs k i "LlamaToolCall.call_id tc"]
    by (simp add: oneToolMessagePerCallId_def hasCallId_iff)
  with k show ?thesis by (simp add: addToolResponse_def)
qed

lemma addToolResponse_first:
  assumes "\<exists>m\<in>set msgs. hasCallId (LlamaToolCall.call_id tc) m"
  shows "\<exists>i<length msgs. hasCallId (LlamaToolCall.call_id tc) (msgs ! i) \<and>
           (\<forall>j<i. \<not> hasCallId (LlamaToolCall.call_id tc) (msgs ! j)) \<and>
           addToolResponse now msgs tc r = msgs[i := toolMessage now tc r]"
proof -
  obtain k where k: "findIndex (hasCallId (LlamaToolCall.call_id tc)) msgs = Some k"
    using assms findIndex_None_iff[of "hasCallId (LlamaToolCall.call_id tc)" msgs]
    by (cases "findIndex (hasCallId (LlamaToolCall.call_id tc)) msgs") auto
  from findIndex_Some[OF k] k show ?thesis
    by (auto simp: addToolResponse_def)
qed

lemma addToolResponse_absent:
  assumes "\<forall>m\<in>set msgs. \<not> hasCallId (LlamaToolCall.call_id tc) m"
  shows "addToolResponse now msgs tc r = msgs @ [toolMessage now tc r]"
  using assms findIndex_None_iff[of "hasCallId (LlamaToolCall.call_id tc)" msgs]
  by (simp add: addToolResponse_def)

lemma toolCallOnToolOnly_addToolResponse:
  "toolCallOnToolOnly msgs \<Longrightarrow> toolCallOnToolOnly (addToolResponse now msgs tc r)"
  unfolding toolCallOnToolOnly_def addToolResponse_def list_all_iff
  by (auto simp: toolMessage_def split: option.splits dest!: set_update_subset_insert[THEN subsetD])

lemma toolCallOnToolOnly_updateChunk:
  "toolCallOnToolOnly msgs \<Longrightarrow> toolCallOnToolOnly (updateChunk now msgs d f)"
  unfolding toolCallOnToolOnly_def updateChunk_def list_all_iff
  by (auto dest!: set_update_subset_insert[THEN subsetD])

lemma toolCallOnToolOnly_reduceToolCalls:
  "toolCallOnToolOnly msgs \<Longrightarrow> toolCallOnToolOnly (reduceToolCalls clock rs msgs calls index)"
  by (induction calls arbitrary: msgs index) (auto simp: toolCallOnToolOnly_addToolResponse)

lemma reducer_preserves_toolCallOnToolOnly:
  assumes "toolCallOnToolOnly msgs" "updateMessagesFromChunk clock msgs chunk = Inr msgs'"
  shows "toolCallOnToolOnly msgs'"
  using reducer_cases[OF assms(2)] assms(1)
  by (auto simp: toolCallOnToolOnly_reduceToolCalls toolCallOnToolOnly_updateChunk)

lemma consume_preserves_unique:
  "oneToolMessagePerCallId msgs \<Longrightarrow> consume msgs steps = Inr msgs' \<Longrightarrow>
   oneToolMessagePerCallId msgs'"
proof (induction steps arbitrary: msgs)
  case Nil
  then show ?case by simp
next
  case (Cons step steps)
  obtain clock chunk where step: "step = (clock, chunk)" by (cases step)
  with Cons.prems(2) obtain mid where mid: "updateMessagesFromChunk clock msgs chunk = Inr mid"
      "consume mid steps = Inr msgs'"
    by (auto split: sum.splits)
  from reducer_preserves_unique[OF Cons.prems(1) mid(1)] have "oneToolMessagePerCallId mid" .
  from Cons.IH[OF this mid(2)] show ?case .
qed

section \<open>The tool-call correlator\<close>

text \<open>
  Claim C2.  \<open>addToolResponse\<close> (\<open>upsertToolCall\<close>) replaces in place, at the same
  index, the existing message that carries the call's identifier, and appends a new tool
  message when there is none.  The replaced message is the first one with that
  identifier; when the store holds at most one message per identifier it is the only
  one.  The message written is freshly built: role \<open>Tool\<close>, the identifier of the call
  and the clock reading of this call as \<open>createdAt\<close>.  Hence the invariant "at most one
  tool message per distinct call identifier" is preserved by the correlator and by every
  step of the reducer that returns a store, hence by every sequence of steps; so is the
  property that only messages of role \<open>Tool\<close> carry a call identifier.
\<close>

theorem C2_upsert_in_place_one_per_callId:
  "((\<exists>m\<in>set msgs. hasCallId (LlamaToolCall.call_id tc) m) \<longrightarrow>
      (\<exists>i<length msgs. hasCallId (LlamaToolCall.call_id tc) (msgs ! i) \<and>
         (\<forall>j<i. \<not> hasCallId (LlamaToolCall.call_id tc) (msgs ! j)) \<and>
         addToolResponse now msgs tc r = msgs[i := toolMessage now tc r])) \<and>
   (oneToolMessagePerCallId msgs \<longrightarrow>
      (\<forall>i<length msgs. hasCallId (LlamaToolCall.call_id tc) (msgs ! i) \<longrightarrow>
         addToolResponse now msgs tc r = msgs[i := toolMessage now tc r])) \<and>
   ((\<forall>m\<in>set msgs. \<not> hasCallId (LlamaToolCall.call_id tc) m) \<longrightarrow>
      addToolResponse now msgs tc r = msgs @ [toolMessage now tc r]) \<and>
   ChatMessage.role (toolMessage now tc r) = Tool \<and>
   createdAt (toolMessage now tc r) = now \<and>
   hasCallId (LlamaToolCall.call_id tc) (toolMessage now tc r) \<and>
   (oneToolMessagePerCallId msgs \<longrightarrow> oneToolMessagePerCallId (addToolResponse now msgs tc r)) \<and>
   (oneToolMessagePerCallId msgs \<longrightarrow>
      (\<forall>msgs'. updateMessagesFromChunk clock msgs chunk = Inr msgs' \<longrightarrow>
         oneToolMessagePerCallId msgs')) \<and>
   (oneToolMessagePerCallId msgs \<longrightarrow>
      (\<forall>msgs'. consume msgs steps = Inr msgs' \<longrightarrow> oneToolMessagePerCallId msgs')) \<and>
   (toolCallOnToolOnly msgs \<longrightarrow>
      (\<forall>msgs'. updateMessagesFromChunk clock msgs chunk = Inr msgs' \<longrightarrow>
         toolCallOnToolOnly msgs'))"
proof -
  have found: "(\<exists>m\<in>set msgs. hasCallId (LlamaToolCall.call_id tc) m) \<longrightarrow>
      (\<exists>i<length msgs. hasCallId (LlamaToolCall.call_id tc) (msgs ! i) \<and>
         (\<forall>j<i. \<not> hasCallId (LlamaToolCall.call_id tc) (msgs ! j)) \<and>
         addToolResponse now msgs tc r = msgs[i := toolMessage now tc r])"
    using addToolResponse_first by blast
  have the_one: "oneToolMessagePerCallId msgs \<longrightarrow>
      (\<forall>i<length msgs. hasCallId (LlamaToolCall.call_id tc) (msgs ! i) \<longrightarrow>
         addToolResponse now msgs tc r = msgs[i := toolMessage now tc r])"
    using addToolResponse_at_unique by blast
  have absent: "(\<forall>m\<in>set msgs. \<not> hasCallId (LlamaToolCall.call_id tc) m) \<longrightarrow>
      addToolResponse now msgs tc r = msgs @ [toolMessage now tc r]"
    using addToolResponse_absent by blast
  have fresh: "ChatMessage.role (toolMessage now tc r) = Tool \<and>
      createdAt (toolMessage now tc r) = now \<and>
      hasCallId (LlamaToolCall.call_id tc) (toolMessage now tc r)"
    by (simp add: toolMessage_def hasCallId_def)
  have step: "oneToolMessagePerCallId msgs \<longrightarrow>
      oneToolMessagePerCallId (addToolResponse now msgs tc r)"
    by (simp add: addToolResponse_preserves_unique)
  have reduce: "oneToolMessagePerCallId msgs \<longrightarrow>
      (\<forall>msgs'. updateMessagesFromChunk clock msgs chunk = Inr msgs' \<longrightarrow>
         oneToolMessagePerCallId msgs')"
    using reducer_preserves_unique by blast
  have roles: "toolCallOnToolOnly msgs \<longrightarrow>
      (\<forall>msgs'. updateMessagesFromChunk clock msgs chunk = Inr msgs' \<longrightarrow>
         toolCallOnToolOnly msgs')"
    using reducer_preserves_toolCallOnToolOnly by blast
  have run: "oneToolMessagePerCallId msgs \<longrightarrow>
      (\<forall>msgs'. consume msgs steps = Inr msgs' \<longrightarrow> oneToolMessagePerCallId msgs')"
    using consume_preserves_unique by blast
  from found the_one absent fresh step reduce run roles show ?thesis by blast
qed

theorem C2_upsert_in_place_witness:
  "oneToolMessagePerCallId storeC1 \<and>
   hasCallId ''c1'' (storeC1 ! 1) \<and>
   addToolResponse 5 storeC1 callC1 (Some responseC1) =
     [userMsg ''hi'' 1, toolMessage 5 callC1 (Some responseC1), toolMessage 2 callC2 None] \<and>
   oneToolMessagePerCallId (addToolResponse 5 storeC1 callC1 (Some responseC1)) \<and>
   updateMessagesFromChunk (\<lambda>k. 5) storeC1 (toolExecution [callC1] [responseC1]) =
     Inr [userMsg ''hi'' 1, toolMessage 5 callC1 (Some responseC1), toolMessage 2 callC2 None] \<and>
   oneToolMessagePerCallId
     [userMsg ''hi'' 1, toolMessage 5 callC1 (Some responseC1), toolMessage 2 callC2 None]"
proof -
  have inv: "oneToolMessagePerCallId storeC1"
    by (simp add: oneToolMessagePerCallId_def callIds_def map_filter_def callIdOf_def storeC1_def
        userMsg_def toolMessage_def callC1_def callC2_def)
  have at: "hasCallId (LlamaToolCall.call_id callC1) (storeC1 ! 1)" "(1::nat) < length storeC1"
    by (simp_all add: hasCallId_def storeC1_def toolMessage_def callC1_def)
  have red: "updateMessagesFromChunk (\<lambda>k. 5) storeC1 (toolExecution [callC1] [responseC1]) =
     Inr [userMsg ''hi'' 1, toolMessage 5 callC1 (Some responseC1), toolMessage 2 callC2 None]"
    by (simp add: updateMessagesFromChunk_def toolExecution_def chunkOf_def responseAt_def
        addToolResponse_def hasCallId_def storeC1_def userMsg_def toolMessage_def callC1_def callC2_def)
  note inst = C2_upsert_in_place_one_per_callId
    [of storeC1 callC1 5 "Some responseC1" "\<lambda>k. 5" "toolExecution [callC1] [responseC1]"]
  from inst inv at have "addToolResponse 5 storeC1 callC1 (Some responseC1) =
      storeC1[1 := toolMessage 5 callC1 (Some responseC1)]"
    by blast
  moreover from inst inv have "oneToolMessagePerCallId (addToolResponse 5 storeC1 callC1 (Some responseC1))"
    by blast
  moreover from inst inv red have "oneToolMessagePerCallId
     [userMsg ''hi'' 1, toolMessage 5 callC1 (Some responseC1), toolMessage 2 callC2 None]"
    by blast
  ultimately show ?thesis using inv at red
    by (simp add: storeC1_def callC1_def)
qed

lemma addToolResponse_at_first:
  assumes "i < length msgs" "hasCallId (LlamaToolCall.call_id tc) (msgs ! i)"
    "\<forall>j<i. \<not> hasCallId (LlamaToolCall.call_id tc) (msgs ! j)"
  shows "addToolResponse now msgs tc r = msgs[i := toolMessage now tc r]"
proof -
  from assms(1,2) have "\<exists>m\<in>set msgs. hasCallId (LlamaToolCall.call_id tc) m" by auto
  from addToolResponse_first[OF this, of now r] obtain k where k: "k < length msgs"
    "hasCallId (LlamaToolCall.call_id tc) (msgs ! k)"
    "\<forall>j<k. \<not> hasCallId (LlamaToolCall.call_id tc) (msgs ! j)"
    "addToolResponse now msgs tc r = msgs[k := toolMessage now tc r]"
    by blast
  have "\<not> k < i" using assms(3) k(2) by blast
  moreover have "\<not> i < k" using k(3) assms(2) by blast
  ultimately have "k = i" by simp
  with k(4) show ?thesis by simp
qed

lemma toolMessage_no_response:
  "ChatMessage.content (toolMessage now tc None) = None \<and>
   map_option result (toolCall (toolMessage now tc None)) = Some None"
  by (simp add: toolMessage_def)

text \<open>
  Claim C10.  Let the store contain a message that carries the call identifier \<open>c\<close> and
  a recorded result, the only message with that identifier (or the first one).  Applying
  \<open>addToolResponse\<close> with a call whose identifier is \<open>c\<close> and no response replaces that
  message by one whose \<^verbatim>\<open>content\<close> and \<^verbatim>\<open>result\<close> are unset: the recorded result is
  discarded.  In particular a \<^verbatim>\<open>step_complete\<close> chunk that repeats the call with an
  empty \<^verbatim>\<open>tool_responses\<close> erases it.
\<close>

theorem C10_repeat_without_response_erases_result:
  assumes "i < length msgs"
    and "toolCall (msgs ! i) = Some t"
    and "callId t = LlamaToolCall.call_id tc"
    and "result t = Some res"
    and "oneToolMessagePerCallId msgs \<or> (\<forall>j<i. \<not> hasCallId (LlamaToolCall.call_id tc) (msgs ! j))"
  shows "addToolResponse now msgs tc None = msgs[i := toolMessage now tc None] \<and>
         ChatMessage.content (addToolResponse now msgs tc None ! i) = None \<and>
         map_option result (toolCall (addToolResponse now msgs tc None ! i)) = Some None \<and>
         updateMessagesFromChunk clock msgs (toolExecution [tc] []) =
           Inr (msgs[i := toolMessage (clock 0) tc None])"
proof -
  from assms(2,3) have has: "hasCallId (LlamaToolCall.call_id tc) (msgs ! i)"
    by (simp add: hasCallId_def)
  have upd: "addToolResponse n msgs tc None = msgs[i := toolMessage n tc None]" for n
    using assms(5) addToolResponse_at_unique[OF _ assms(1) has]
      addToolResponse_at_first[OF assms(1) has] by blast
  have red: "updateMessagesFromChunk clock msgs (toolExecution [tc] []) =
      Inr (addToolResponse (clock 0) msgs tc None)"
    by (simp add: updateMessagesFromChunk_def toolExecution_def chunkOf_def responseAt_def)
  show ?thesis
    using assms(1) upd red toolMessage_no_response[of now tc] by simp
qed

theorem C10_repeat_without_response_witness:
  "oneToolMessagePerCallId storeResult \<and>
   map_option result (toolCall (storeResult ! 1)) = Some (Some ''ok'') \<and>
   updateMessagesFromChunk (\<lambda>k. 7) storeResult (toolExecution [callC1] []) =
     Inr [userMsg ''hi'' 1, toolMessage 7 callC1 None, agentMsg ''done'' 3] \<and>
   ChatMessage.content (toolMessage 7 callC1 None) = None \<and>
   map_option result (toolCall (toolMessage 7 callC1 None)) = Some None"
proof -
  have inv: "oneToolMessagePerCallId storeResult"
    by (simp add: oneToolMessagePerCallId_def callIds_def map_filter_def callIdOf_def
        storeResult_def userMsg_def agentMsg_def toolMessage_def callC1_def)
  obtain t where t: "toolCall (storeResult ! 1) = Some t"
      "callId t = LlamaToolCall.call_id callC1" "result t = Some ''ok''"
    by (simp add: storeResult_def toolMessage_def responseC1_def)
  have len: "(1::nat) < length storeResult" by (simp add: storeResult_def)
  from C10_repeat_without_response_erases_result[OF len t, of 7 "\<lambda>k. 7"] inv
  have "updateMessagesFromChunk (\<lambda>k. 7) storeResult (toolExecution [callC1] []) =
          Inr (storeResult[1 := toolMessage 7 callC1 None])"
    by blast
  moreover have "ChatMessage.content (toolMessage 7 callC1 None) = None \<and>
      map_option result (toolCall (toolMessage 7 callC1 None)) = Some None"
    by (simp add: toolMessage_def)
  ultimately show ?thesis using inv t
    by (simp add: storeResult_def)
qed

section \<open>Tool-execution steps\<close>

lemma reduceToolCalls_foldl:
  "reduceToolCalls clock rs msgs calls index =
     foldl (\<lambda>acc (i, tc). addToolResponse (clock i) acc tc (responseAt rs i)) msgs
       (zip [index..<index + length calls] calls)"
proof (induction calls arbitrary: msgs index)
  case Nil
  then show ?case by simp
next
  case (Cons tc calls)
  have "index < index + length (tc # calls)" by simp
  from upt_conv_Cons[OF this]
  have "[index..<index + length (tc # calls)] = index # [Suc index..<Suc index + length calls]"
    by simp
  then show ?case
    by (simp add: Cons.IH del: upt_Suc)
qed

lemma zip_upt_nth: "zip [0..<length xs] xs = map (\<lambda>i. (i, xs ! i)) [0..<length xs]"
  by (rule nth_equalityI) auto

lemma reduceToolCalls_foldUpserts:
  "reduceToolCalls clock (Some responses) msgs calls 0 =
     foldUpserts clock msgs (positionalPairs calls responses)"
  by (simp add: reduceToolCalls_foldl zip_upt_nth foldUpserts_def positionalPairs_def
      foldl_map responseAt_def)

lemma reduceToolCalls_no_responses:
  "reduceToolCalls clock None msgs calls 0 = foldUpserts clock msgs (positionalPairs calls [])"
  by (simp add: reduceToolCalls_foldl zip_upt_nth foldUpserts_def positionalPairs_def
      foldl_map responseAt_def)

text \<open>
  Claim C4.  For a \<^verbatim>\<open>step_complete\<close> chunk whose \<^verbatim>\<open>step_details\<close> has step type
  \<^verbatim>\<open>tool_execution\<close>, the reducer returns the left-to-right fold of the correlator
  over the pairs of the call at position \<open>i\<close> and the response at position \<open>i\<close> when
  \<^verbatim>\<open>tool_responses\<close> is that long (no response otherwise, and none at all when the
  field is missing), starting from the given store; each pair works on the list the
  earlier pairs produced.
\<close>

theorem C4_step_complete_is_sequential_fold:
  assumes "event chunk = Some ev"
    and "payload ev = Some p"
    and "event_type p = Some ''step_complete''"
    and "step_details p = Some toolStep"
    and "step_type toolStep = ''tool_execution''"
    and "tool_calls toolStep = Some calls"
  shows "(\<forall>responses. tool_responses toolStep = Some responses \<longrightarrow>
            updateMessagesFromChunk clock msgs chunk =
              Inr (foldUpserts clock msgs (positionalPairs calls responses))) \<and>
         (tool_responses toolStep = None \<longrightarrow>
            updateMessagesFromChunk clock msgs chunk =
              Inr (foldUpserts clock msgs (positionalPairs calls [])))"
  using assms
  by (simp add: updateMessagesFromChunk_def reduceToolCalls_foldUpserts reduceToolCalls_no_responses)

theorem C4_step_complete_fold_witness:
  "updateMessagesFromChunk (\<lambda>k. 4 + int k) [userMsg ''hi'' 1] (toolExecution [callC1, callC2, callC1] [responseC1]) =
     Inr (foldUpserts (\<lambda>k. 4 + int k) [userMsg ''hi'' 1]
            [(0, callC1, Some responseC1), (1, callC2, None), (2, callC1, None)]) \<and>
   foldUpserts (\<lambda>k. 4 + int k) [userMsg ''hi'' 1]
            [(0, callC1, Some responseC1), (1, callC2, None), (2, callC1, None)] =
     [userMsg ''hi'' 1, toolMessage 6 callC1 None, toolMessage 5 callC2 None]"
proof -
  have pairs: "positionalPairs [callC1, callC2, callC1] [responseC1] =
      [(0, callC1, Some responseC1), (1, callC2, None), (2, callC1, None)]"
    by (simp add: positionalPairs_def upt_rec)
  have "updateMessagesFromChunk (\<lambda>k. 4 + int k) [userMsg ''hi'' 1]
          (toolExecution [callC1, callC2, callC1] [responseC1]) =
        Inr (foldUpserts (\<lambda>k. 4 + int k) [userMsg ''hi'' 1]
              (positionalPairs [callC1, callC2, callC1] [responseC1]))"
    using C4_step_complete_is_sequential_fold
      [of "toolExecution [callC1, callC2, callC1] [responseC1]" _ _ _ "[callC1, callC2, callC1]"
        "\<lambda>k. 4 + int k" "[userMsg ''hi'' 1]"]
    by (simp add: toolExecution_def chunkOf_def)
  moreover have "foldUpserts (\<lambda>k. 4 + int k) [userMsg ''hi'' 1]
            [(0, callC1, Some responseC1), (1, callC2, None), (2, callC1, None)] =
     [userMsg ''hi'' 1, toolMessage 6 callC1 None, toolMessage 5 callC2 None]"
    by (simp add: foldUpserts_def addToolResponse_def hasCallId_def userMsg_def toolMessage_def
        callC1_def callC2_def)
  ultimately show ?thesis by (simp add: pairs)
qed

section \<open>Text deltas and the final output message\<close>

lemma update_last: "msgs \<noteq> [] \<Longrightarrow> msgs[length msgs - 1 := m] = butlast msgs @ [m]"
  by (induction msgs rule: rev_induct) simp_all

lemma updateChunk_append_or_extend:
  "updateChunk now msgs d f =
     (if msgs \<noteq> [] \<and> ChatMessage.role (last msgs) = Agent
      then butlast msgs @
             [(last msgs)\<lparr>ChatMessage.content := updateMessage d f (ChatMessage.content (last msgs))\<rparr>]
      else msgs @
             [\<lparr>ChatMessage.role = Agent, content = updateMessage d f (Some []), createdAt = now,
               toolCall = None\<rparr>])"
  using update_last[of msgs] by (auto simp add: updateChunk_def)

text \<open>
  A \<^verbatim>\<open>step_progress\<close> chunk with a non-empty text delta extends the trailing agent
  message or appends a new agent message; a delta that is not a text delta leaves the
  store unchanged.
\<close>

lemma text_delta_nonempty:
  assumes "event chunk = Some ev"
    and "payload ev = Some p"
    and "event_type p = Some ''step_progress''"
    and "delta p = Some d"
    and "type d = ''text''"
    and "text_field d \<noteq> []"
  shows "updateMessagesFromChunk clock msgs chunk =
           Inr (if msgs \<noteq> [] \<and> ChatMessage.role (last msgs) = Agent
                then butlast msgs @
                       [(last msgs)\<lparr>ChatMessage.content :=
                          Some (js_plus (ChatMessage.content (last msgs)) (text_field d))\<rparr>]
                else msgs @
                       [\<lparr>ChatMessage.role = Agent, content = Some (text_field d),
                         createdAt = clock 0, toolCall = None\<rparr>])"
  using assms
  by (simp add: updateMessagesFromChunk_def updateChunk_append_or_extend updateMessage_def js_plus_def)

lemma non_text_delta_unchanged:
  assumes "event chunk = Some ev"
    and "payload ev = Some p"
    and "event_type p = Some ''step_progress''"
    and "delta p = Some d"
    and "type d \<noteq> ''text''"
  shows "updateMessagesFromChunk clock msgs chunk = Inr msgs"
  using assms by (simp add: updateMessagesFromChunk_def)

text \<open>
  Claim C1, at the empty text delta.  The claim asks for the old content followed by the
  delta, hence the old content, and for a new agent message with the empty content when
  the last message is not an agent message.  \<^verbatim>\<open>updateMessage\<close> tests \<^verbatim>\<open>if (delta)\<close>,
  which is false for the empty string, and returns \<^verbatim>\<open>full!\<close>, which is undefined for a
  text delta: the accumulated content \<^verbatim>\<open>Hello\<close> is replaced by an unset content, and the
  appended message has an unset content.
\<close>

theorem C1_empty_text_delta_drops_content:
  "updateMessagesFromChunk (\<lambda>k. 9) [agentMsg ''Hello'' 1] (textProgress []) =
     Inr [\<lparr>ChatMessage.role = Agent, content = None, createdAt = 1, toolCall = None\<rparr>] \<and>
   updateMessagesFromChunk (\<lambda>k. 9) [userMsg ''hi'' 1] (textProgress []) =
     Inr [userMsg ''hi'' 1,
          \<lparr>ChatMessage.role = Agent, content = None, createdAt = 9, toolCall = None\<rparr>]"
  by (simp add: updateMessagesFromChunk_def textProgress_def chunkOf_def updateChunk_def
      updateMessage_def agentMsg_def userMsg_def)

text \<open>
  Claim C3.  For a \<^verbatim>\<open>turn_complete\<close> chunk that carries an output message with text
  \<open>s\<close>: when the last message of the store has role \<open>Agent\<close> its content becomes
  exactly \<open>s\<close> (the other fields are kept), otherwise a new agent message with content
  \<open>s\<close> is appended.  Without an output message the store is returned unchanged.
\<close>

theorem C3_turn_complete_full_replacement:
  assumes "event chunk = Some ev"
    and "payload ev = Some p"
    and "event_type p = Some ''turn_complete''"
    and "turn p = Some t"
  shows "(\<forall>om. output_message t = Some om \<longrightarrow>
            updateMessagesFromChunk clock msgs chunk =
              Inr (if msgs \<noteq> [] \<and> ChatMessage.role (last msgs) = Agent
                   then butlast msgs @
                          [(last msgs)\<lparr>ChatMessage.content := Some (OutputMessage.content om)\<rparr>]
                   else msgs @
                          [\<lparr>ChatMessage.role = Agent, content = Some (OutputMessage.content om),
                            createdAt = clock 0, toolCall = None\<rparr>])) \<and>
         (output_message t = None \<longrightarrow> updateMessagesFromChunk clock msgs chunk = Inr msgs)"
  using assms
  by (simp add: updateMessagesFromChunk_def updateChunk_append_or_extend updateMessage_def)

theorem C3_turn_complete_witness:
  "updateMessagesFromChunk (\<lambda>k. 9) [userMsg ''hi'' 1, agentMsg ''Hello world'' 2] (turnComplete ''Goodbye'') =
     Inr [userMsg ''hi'' 1, agentMsg ''Goodbye'' 2] \<and>
   updateMessagesFromChunk (\<lambda>k. 9) [userMsg ''hi'' 1] (turnComplete ''Goodbye'') =
     Inr [userMsg ''hi'' 1, agentMsg ''Goodbye'' 9]"
  using C3_turn_complete_full_replacement
      [of "turnComplete ''Goodbye''" _ _ _ "\<lambda>k. 9" "[userMsg ''hi'' 1, agentMsg ''Hello world'' 2]"]
    C3_turn_complete_full_replacement
      [of "turnComplete ''Goodbye''" _ _ _ "\<lambda>k. 9" "[userMsg ''hi'' 1]"]
  by (simp add: turnComplete_def chunkOf_def agentMsg_def userMsg_def)

section \<open>Chunks without actionable state\<close>

text \<open>
  Claim C7, as stated, fails on malformed chunks: a \<^verbatim>\<open>step_progress\<close> chunk without
  \<^verbatim>\<open>delta\<close>, and a chunk without \<^verbatim>\<open>event\<close>, make the reducer read a property of
  \<^verbatim>\<open>undefined\<close>, which raises \<^verbatim>\<open>TypeError\<close>.
\<close>

theorem C7_malformed_chunk_raises:
  "updateMessagesFromChunk (\<lambda>k. 9) [userMsg ''hi'' 1] progressWithoutDelta = Inl TypeError \<and>
   updateMessagesFromChunk (\<lambda>k. 9) [userMsg ''hi'' 1] \<lparr>event = None\<rparr> = Inl TypeError"
  by (simp add: updateMessagesFromChunk_def progressWithoutDelta_def chunkOf_def)

text \<open>
  Claim C7, amended.  For every store and every chunk whose \<^verbatim>\<open>event.payload\<close> is
  present and whose \<^verbatim>\<open>event_type\<close> is none of \<^verbatim>\<open>step_progress\<close>, \<^verbatim>\<open>step_complete\<close>
  and \<^verbatim>\<open>turn_complete\<close> (so \<^verbatim>\<open>turn_start\<close>, \<^verbatim>\<open>step_start\<close>,
  \<^verbatim>\<open>turn_awaiting_input\<close>, an unrecognised or a missing event type), the reducer
  raises nothing and returns the store unchanged.
\<close>

theorem C7_inert_event_types_unchanged:
  assumes "event chunk = Some ev"
    and "payload ev = Some p"
    and "event_type p \<noteq> Some ''step_progress''"
    and "event_type p \<noteq> Some ''step_complete''"
    and "event_type p \<noteq> Some ''turn_complete''"
  shows "updateMessagesFromChunk clock msgs chunk = Inr msgs"
  using assms by (simp add: updateMessagesFromChunk_def)

theorem C7_inert_event_types_witness:
  "updateMessagesFromChunk (\<lambda>k. 9) [userMsg ''hi'' 1] turnStart = Inr [userMsg ''hi'' 1] \<and>
   updateMessagesFromChunk (\<lambda>k. 9) [userMsg ''hi'' 1]
     (chunkOf \<lparr>event_type = Some ''step_start'', delta = None, step_details = None, turn = None\<rparr>) =
     Inr [userMsg ''hi'' 1] \<and>
   updateMessagesFromChunk (\<lambda>k. 9) [userMsg ''hi'' 1]
     (chunkOf \<lparr>event_type = Some ''turn_awaiting_input'', delta = None, step_details = None, turn = None\<rparr>) =
     Inr [userMsg ''hi'' 1] \<and>
   updateMessagesFromChunk (\<lambda>k. 9) [userMsg ''hi'' 1]
     (chunkOf \<lparr>event_type = Some ''heartbeat'', delta = None, step_details = None, turn = None\<rparr>) =
     Inr [userMsg ''hi'' 1] \<and>
   updateMessagesFromChunk (\<lambda>k. 9) [userMsg ''hi'' 1]
     (chunkOf \<lparr>event_type = None, delta = None, step_details = None, turn = None\<rparr>) =
     Inr [userMsg ''hi'' 1]"
  using C7_inert_event_types_unchanged[of turnStart _ _ "\<lambda>k. 9" "[userMsg ''hi'' 1]"]
    C7_inert_event_types_unchanged[of "chunkOf \<lparr>event_type = Some ''step_start'', delta = None, step_details = None, turn = None\<rparr>" _ _ "\<lambda>k. 9" "[userMsg ''hi'' 1]"]
    C7_inert_event_types_unchanged[of "chunkOf \<lparr>event_type = Some ''turn_awaiting_input'', delta = None, step_details = None, turn = None\<rparr>" _ _ "\<lambda>k. 9" "[userMsg ''hi'' 1]"]
    C7_inert_event_types_unchanged[of "chunkOf \<lparr>event_type = Some ''heartbeat'', delta = None, step_details = None, turn = None\<rparr>" _ _ "\<lambda>k. 9" "[userMsg ''hi'' 1]"]
    C7_inert_event_types_unchanged[of "chunkOf \<lparr>event_type = None, delta = None, step_details = None, turn = None\<rparr>" _ _ "\<lambda>k. 9" "[userMsg ''hi'' 1]"]
  by (simp add: turnStart_def chunkOf_def)

section \<open>Dependence on the clock\<close>

lemma findIndex_map: "findIndex P (map f xs) = findIndex (\<lambda>x. P (f x)) xs"
  by (induction xs) auto

lemma hasCallId_forget [simp]: "hasCallId c (forgetCreatedAt m) = hasCallId c m"
  by (simp add: hasCallId_def forgetCreatedAt_def)

lemma findIndex_forget:
  "findIndex (hasCallId c) (map forgetCreatedAt msgs) = findIndex (hasCallId c) msgs"
  by (simp add: findIndex_map)

lemma forget_toolMessage: "forgetCreatedAt (toolMessage now tc r) = forgetCreatedAt (toolMessage now' tc r)"
  by (simp add: forgetCreatedAt_def toolMessage_def)

lemma forget_addToolResponse:
  assumes "map forgetCreatedAt msgs = map forgetCreatedAt msgs'"
  shows "map forgetCreatedAt (addToolResponse now msgs tc r) =
         map forgetCreatedAt (addToolResponse now' msgs' tc r)"
proof -
  have "findIndex (hasCallId (LlamaToolCall.call_id tc)) msgs =
        findIndex (hasCallId (LlamaToolCall.call_id tc)) msgs'"
    using assms findIndex_forget[of "LlamaToolCall.call_id tc" msgs]
      findIndex_forget[of "LlamaToolCall.call_id tc" msgs'] by simp
  then show ?thesis
    using assms forget_toolMessage[of now tc r now']
    by (simp add: addToolResponse_def map_update split: option.splits)
qed

lemma forget_reduceToolCalls:
  "map forgetCreatedAt msgs = map forgetCreatedAt msgs' \<Longrightarrow>
   map forgetCreatedAt (reduceToolCalls clock rs msgs calls index) =
   map forgetCreatedAt (reduceToolCalls clock' rs msgs' calls index)"
proof (induction calls arbitrary: msgs msgs' index)
  case Nil
  then show ?case by simp
next
  case (Cons tc calls)
  from forget_addToolResponse[OF Cons.prems]
  have "map forgetCreatedAt (addToolResponse (clock index) msgs tc (responseAt rs index)) =
        map forgetCreatedAt (addToolResponse (clock' index) msgs' tc (responseAt rs index))" .
  from Cons.IH[OF this] show ?case by simp
qed

lemma forget_updateChunk:
  "map forgetCreatedAt (updateChunk now msgs d f) = map forgetCreatedAt (updateChunk now' msgs d f)"
  by (simp add: updateChunk_def forgetCreatedAt_def)

lemma reduceToolCalls_clock_cong:
  "(\<forall>k. index \<le> k \<and> k < index + length calls \<longrightarrow> clock k = clock' k) \<Longrightarrow>
   reduceToolCalls clock rs msgs calls index = reduceToolCalls clock' rs msgs calls index"
proof (induction calls arbitrary: msgs index)
  case Nil
  then show ?case by simp
next
  case (Cons tc calls)
  have "clock index = clock' index" using Cons.prems by simp
  moreover have "\<forall>k. Suc index \<le> k \<and> k < Suc index + length calls \<longrightarrow> clock k = clock' k"
    using Cons.prems by simp
  ultimately show ?case using Cons.IH[of "Suc index"] by simp
qed

text \<open>
  Claim C6, as stated, fails: the reducer reads \<^verbatim>\<open>Date.now()\<close> for every message it
  builds, so two evaluations on the same store and the same chunk, one second apart,
  return lists that differ in \<^verbatim>\<open>createdAt\<close>.
\<close>

theorem C6_same_chunk_different_createdAt:
  "updateMessagesFromChunk (\<lambda>k. 100) [userMsg ''hi'' 1] (textProgress ''A'') =
     Inr [userMsg ''hi'' 1, agentMsg ''A'' 100] \<and>
   updateMessagesFromChunk (\<lambda>k. 101) [userMsg ''hi'' 1] (textProgress ''A'') =
     Inr [userMsg ''hi'' 1, agentMsg ''A'' 101] \<and>
   updateMessagesFromChunk (\<lambda>k. 100) [userMsg ''hi'' 1] (textProgress ''A'') \<noteq>
     updateMessagesFromChunk (\<lambda>k. 101) [userMsg ''hi'' 1] (textProgress ''A'')"
  by (simp add: updateMessagesFromChunk_def textProgress_def chunkOf_def updateChunk_def
      updateMessage_def js_plus_def agentMsg_def userMsg_def)

text \<open>
  Claim C6, amended.  Two evaluations of the reducer on the same store and chunk agree
  on whether they raise and return the same messages in the same order with the same
  role, content and \<^verbatim>\<open>toolCall\<close> payload; they can differ only in \<^verbatim>\<open>createdAt\<close>.  They
  return equal lists whenever the clock readings taken during the two evaluations (one
  per tool call, one for an appended agent message) are equal.
\<close>

theorem C6_deterministic_up_to_clock:
  "forgetTimes (updateMessagesFromChunk clock msgs chunk) =
     forgetTimes (updateMessagesFromChunk clock' msgs chunk) \<and>
   ((\<forall>k < max 1 (length (toolCallsOf chunk)). clock k = clock' k) \<longrightarrow>
      updateMessagesFromChunk clock msgs chunk = updateMessagesFromChunk clock' msgs chunk)"
proof
  show "forgetTimes (updateMessagesFromChunk clock msgs chunk) =
     forgetTimes (updateMessagesFromChunk clock' msgs chunk)"
    using forget_updateChunk[of "clock 0" msgs _ _ "clock' 0"]
      forget_reduceToolCalls[of msgs msgs clock _ _ 0 clock']
    by (simp add: forgetTimes_def updateMessagesFromChunk_def split: option.splits)
next
  show "(\<forall>k < max 1 (length (toolCallsOf chunk)). clock k = clock' k) \<longrightarrow>
      updateMessagesFromChunk clock msgs chunk = updateMessagesFromChunk clock' msgs chunk"
  proof
    assume eq: "\<forall>k < max 1 (length (toolCallsOf chunk)). clock k = clock' k"
    then have zero: "clock 0 = clock' 0" by simp
    have calls: "reduceToolCalls clock rs msgs (toolCallsOf chunk) 0 =
                 reduceToolCalls clock' rs msgs (toolCallsOf chunk) 0" for rs
      using eq by (intro reduceToolCalls_clock_cong) simp
    show "updateMessagesFromChunk clock msgs chunk = updateMessagesFromChunk clock' msgs chunk"
      using zero calls
      by (auto simp add: updateMessagesFromChunk_def toolCallsOf_def split: option.splits)
  qed
qed

theorem C6_deterministic_up_to_clock_witness:
  "forgetTimes (updateMessagesFromChunk (\<lambda>k. 100) storeC1 (toolExecution [callC1, callC2] [responseC1])) =
     forgetTimes (updateMessagesFromChunk (\<lambda>k. 101 + int k) storeC1 (toolExecution [callC1, callC2] [responseC1])) \<and>
   updateMessagesFromChunk (\<lambda>k. if k < 2 then 100 else 7) storeC1 (toolExecution [callC1, callC2] [responseC1]) =
     updateMessagesFromChunk (\<lambda>k. 100) storeC1 (toolExecution [callC1, callC2] [responseC1])"
proof -
  note inst1 = C6_deterministic_up_to_clock
      [of "\<lambda>k. 100" storeC1 "toolExecution [callC1, callC2] [responseC1]" "\<lambda>k. 101 + int k"]
  note inst2 = C6_deterministic_up_to_clock
      [of "\<lambda>k. if k < 2 then 100 else 7" storeC1 "toolExecution [callC1, callC2] [responseC1]" "\<lambda>k. 100"]
  have len: "length (toolCallsOf (toolExecution [callC1, callC2] [responseC1])) = 2"
    by (simp add: toolCallsOf_def toolExecution_def chunkOf_def)
  from inst2 len have "updateMessagesFromChunk (\<lambda>k. if k < 2 then 100 else 7) storeC1 (toolExecution [callC1, callC2] [responseC1]) =
     updateMessagesFromChunk (\<lambda>k. 100) storeC1 (toolExecution [callC1, callC2] [responseC1])"
    by simp
  with inst1 show ?thesis by blast
qed

section \<open>Order of creation times\<close>

lemma orderedUpTo_append:
  "orderedUpTo t msgs \<Longrightarrow> t \<le> now \<Longrightarrow> createdAt m = now \<Longrightarrow> orderedUpTo now (msgs @ [m])"
  by (auto simp: orderedUpTo_def createdAtSorted_def sorted_append list_all_iff)

lemma orderedUpTo_mono: "orderedUpTo t msgs \<Longrightarrow> t \<le> t' \<Longrightarrow> orderedUpTo t' msgs"
  by (auto simp: orderedUpTo_def list_all_iff)

lemma createdAt_updateChunk_extend:
  assumes "msgs \<noteq> []" "ChatMessage.role (last msgs) = Agent"
  shows "map createdAt (updateChunk now msgs d f) = map createdAt msgs"
proof -
  have "(map createdAt msgs)[length msgs - 1 := createdAt (last msgs)] = map createdAt msgs"
    using assms(1) by (simp add: last_conv_nth list_update_same_conv)
  then show ?thesis using assms
    by (simp add: updateChunk_def map_update)
qed

lemma orderedUpTo_updateChunk:
  assumes "orderedUpTo t msgs" "t \<le> now"
  shows "orderedUpTo now (updateChunk now msgs d f)"
proof (cases "msgs \<noteq> [] \<and> ChatMessage.role (last msgs) = Agent")
  case True
  then have "map createdAt (updateChunk now msgs d f) = map createdAt msgs"
    using createdAt_updateChunk_extend by blast
  moreover have "orderedUpTo now msgs" using assms by (rule orderedUpTo_mono)
  ultimately show ?thesis
    by (simp add: orderedUpTo_def createdAtSorted_def list_all_iff)
      (metis (no_types, lifting) image_iff image_set)
next
  case False
  then have "updateChunk now msgs d f = msgs @
      [\<lparr>ChatMessage.role = Agent, content = updateMessage d f (Some []), createdAt = now, toolCall = None\<rparr>]"
    by (auto simp: updateChunk_def)
  with orderedUpTo_append[OF assms] show ?thesis by simp
qed

lemma orderedUpTo_reduceToolCalls:
  assumes "orderedUpTo (clock index) msgs"
    and "\<forall>i j. i \<le> j \<longrightarrow> clock i \<le> clock j"
    and "distinct (map LlamaToolCall.call_id calls)"
    and "list_all (\<lambda>tc. LlamaToolCall.call_id tc \<notin> set (callIds msgs)) calls"
  shows "orderedUpTo (clock (index + length calls)) (reduceToolCalls clock rs msgs calls index)"
  using assms
proof (induction calls arbitrary: msgs index)
  case Nil
  then show ?case by simp
next
  case (Cons tc calls)
  let ?m = "toolMessage (clock index) tc (responseAt rs index)"
  have absent: "\<forall>m\<in>set msgs. \<not> hasCallId (LlamaToolCall.call_id tc) m"
    using Cons.prems(4) by (simp add: set_callIds)
  then have step: "addToolResponse (clock index) msgs tc (responseAt rs index) = msgs @ [?m]"
    by (rule addToolResponse_absent)
  have "createdAt ?m = clock index" by (simp add: toolMessage_def)
  with orderedUpTo_append[OF Cons.prems(1), of "clock index" ?m]
  have "orderedUpTo (clock index) (msgs @ [?m])" by simp
  moreover have "clock index \<le> clock (Suc index)" using Cons.prems(2) by simp
  ultimately have ord: "orderedUpTo (clock (Suc index)) (msgs @ [?m])"
    by (rule orderedUpTo_mono)
  have ids: "callIds (msgs @ [?m]) = callIds msgs @ [LlamaToolCall.call_id tc]"
    by (simp add: callIds_append callIds_def map_filter_def callIdOf_toolMessage)
  have fresh: "list_all (\<lambda>c. LlamaToolCall.call_id c \<notin> set (callIds (msgs @ [?m]))) calls"
    unfolding list_all_iff ids
  proof
    fix c assume c: "c \<in> set calls"
    have n1: "LlamaToolCall.call_id tc \<notin> set (map LlamaToolCall.call_id calls)"
      using Cons.prems(3) by simp
    have n2: "LlamaToolCall.call_id c \<in> set (map LlamaToolCall.call_id calls)"
      using c by simp
    have "LlamaToolCall.call_id c \<noteq> LlamaToolCall.call_id tc"
      using n1 n2 by metis
    moreover have "LlamaToolCall.call_id c \<notin> set (callIds msgs)"
      using Cons.prems(4) c by (simp add: list_all_iff)
    ultimately show "LlamaToolCall.call_id c \<notin> set (callIds msgs @ [LlamaToolCall.call_id tc])"
      by simp
  qed
  have dist: "distinct (map LlamaToolCall.call_id calls)" using Cons.prems(3) by simp
  from Cons.IH[OF ord Cons.prems(2) dist fresh] step show ?case by simp
qed

text \<open>
  Claim C5, as stated, fails.  From the empty store, a tool call \<^verbatim>\<open>c1\<close> without a
  response at time 1 and a text delta at time 2 give a store ordered by \<^verbatim>\<open>createdAt\<close>;
  the response for \<^verbatim>\<open>c1\<close> arriving at time 3 replaces the tool message in place with
  the fresh time 3, in front of the agent message of time 2.
\<close>

theorem C5_in_place_replacement_breaks_order:
  "consume [] [(\<lambda>k. 1, toolExecution [callC1] []), (\<lambda>k. 2, textProgress ''A'')] =
     Inr [toolMessage 1 callC1 None, agentMsg ''A'' 2] \<and>
   createdAtSorted [toolMessage 1 callC1 None, agentMsg ''A'' 2] \<and>
   updateMessagesFromChunk (\<lambda>k. 3) [toolMessage 1 callC1 None, agentMsg ''A'' 2]
       (toolExecution [callC1] [responseC1]) =
     Inr [toolMessage 3 callC1 (Some responseC1), agentMsg ''A'' 2] \<and>
   \<not> createdAtSorted [toolMessage 3 callC1 (Some responseC1), agentMsg ''A'' 2]"
  by (simp add: updateMessagesFromChunk_def toolExecution_def textProgress_def chunkOf_def
      responseAt_def addToolResponse_def hasCallId_def updateChunk_def updateMessage_def
      js_plus_def createdAtSorted_def toolMessage_def agentMsg_def callC1_def)

text \<open>
  Claim C5, amended.  Let the store be ordered by \<^verbatim>\<open>createdAt\<close> with no message newer
  than the first clock reading of the step, and let the clock not run backwards.  A
  reduce step whose tool calls all append (their identifiers are pairwise different and
  not in the store) returns a store that is again ordered, with no message newer than
  the next clock reading.  Steps without tool calls (text deltas, final output message,
  chunks without actionable state) are among them.
\<close>

theorem C5_createdAt_sorted_when_calls_append:
  assumes "createdAtSorted msgs"
    and "\<forall>m\<in>set msgs. createdAt m \<le> clock 0"
    and "\<forall>i j. i \<le> j \<longrightarrow> clock i \<le> clock j"
    and "freshCalls msgs chunk"
    and "updateMessagesFromChunk clock msgs chunk = Inr msgs'"
  shows "createdAtSorted msgs' \<and>
         (\<forall>m\<in>set msgs'. createdAt m \<le> clock (length (toolCallsOf chunk)))"
proof -
  have start: "orderedUpTo (clock 0) msgs"
    using assms(1,2) by (simp add: orderedUpTo_def list_all_iff)
  have le: "clock 0 \<le> clock (length (toolCallsOf chunk))" using assms(3) by simp
  have "orderedUpTo (clock (length (toolCallsOf chunk))) msgs'"
    using reducer_cases[OF assms(5)]
  proof (elim disjE exE)
    assume "msgs' = msgs"
    with start le show ?thesis by (simp add: orderedUpTo_mono)
  next
    fix d f assume "msgs' = updateChunk (clock 0) msgs d f"
    with orderedUpTo_updateChunk[OF start, of "clock 0" d f] le show ?thesis
      by (simp add: orderedUpTo_mono)
  next
    fix rs assume "msgs' = reduceToolCalls clock rs msgs (toolCallsOf chunk) 0"
    with orderedUpTo_reduceToolCalls[of clock 0 msgs "toolCallsOf chunk" rs] start assms(3,4)
    show ?thesis by (simp add: freshCalls_def)
  qed
  then show ?thesis by (simp add: orderedUpTo_def list_all_iff)
qed

theorem C5_createdAt_sorted_witness:
  "createdAtSorted [userMsg ''hi'' 1] \<and>
   freshCalls [userMsg ''hi'' 1] (toolExecution [callC1, callC2] [responseC1]) \<and>
   updateMessagesFromChunk (\<lambda>k. 2 + int k) [userMsg ''hi'' 1] (toolExecution [callC1, callC2] [responseC1]) =
     Inr [userMsg ''hi'' 1, toolMessage 2 callC1 (Some responseC1), toolMessage 3 callC2 None] \<and>
   createdAtSorted [userMsg ''hi'' 1, toolMessage 2 callC1 (Some responseC1), toolMessage 3 callC2 None]"
proof -
  have h1: "createdAtSorted [userMsg ''hi'' 1]" by (simp add: createdAtSorted_def)
  have h2: "\<forall>m\<in>set [userMsg ''hi'' 1]. createdAt m \<le> (\<lambda>k. 2 + int k) 0"
    by (simp add: userMsg_def)
  have h3: "\<forall>i j. i \<le> j \<longrightarrow> (\<lambda>k. 2 + int k) i \<le> (\<lambda>k. 2 + int k) j" by simp
  have h4: "freshCalls [userMsg ''hi'' 1] (toolExecution [callC1, callC2] [responseC1])"
    by (simp add: freshCalls_def toolCallsOf_def toolExecution_def chunkOf_def callIds_def
        map_filter_def callIdOf_def userMsg_def callC1_def callC2_def)
  have h5: "updateMessagesFromChunk (\<lambda>k. 2 + int k) [userMsg ''hi'' 1] (toolExecution [callC1, callC2] [responseC1]) =
     Inr [userMsg ''hi'' 1, toolMessage 2 callC1 (Some responseC1), toolMessage 3 callC2 None]"
    by (simp add: updateMessagesFromChunk_def toolExecution_def chunkOf_def responseAt_def
        addToolResponse_def hasCallId_def userMsg_def toolMessage_def callC1_def callC2_def)
  from C5_createdAt_sorted_when_calls_append[OF h1 h2 h3 h4 h5] h1 h4 h5 show ?thesis by simp
qed

section \<open>The driver: failure of the stream\<close>

text \<open>
  The reducer never removes or rewrites a message that is neither an agent message nor
  a carrier of a \<^verbatim>\<open>toolCall\<close>; the user message of a submission is such a message.
\<close>

lemma length_updateChunk: "length msgs \<le> length (updateChunk now msgs d f)"
  by (simp add: updateChunk_def)

lemma length_addToolResponse: "length msgs \<le> length (addToolResponse now msgs tc r)"
  by (simp add: addToolResponse_def split: option.splits)

lemma nth_updateChunk_kept:
  assumes "i < length msgs" "ChatMessage.role (msgs ! i) \<noteq> Agent"
  shows "updateChunk now msgs d f ! i = msgs ! i"
proof (cases "msgs \<noteq> [] \<and> ChatMessage.role (last msgs) = Agent")
  case True
  with assms have "i \<noteq> length msgs - 1" by (auto simp: last_conv_nth)
  with True show ?thesis by (simp add: updateChunk_def)
next
  case False
  with assms(1) show ?thesis by (auto simp: updateChunk_def nth_append)
qed

lemma nth_addToolResponse_kept:
  assumes "i < length msgs" "toolCall (msgs ! i) = None"
  shows "addToolResponse now msgs tc r ! i = msgs ! i"
proof (cases "findIndex (hasCallId (LlamaToolCall.call_id tc)) msgs")
  case None
  with assms(1) show ?thesis by (simp add: addToolResponse_def nth_append)
next
  case (Some k)
  from findIndex_Some[OF Some] assms(2) have "k \<noteq> i" by (auto simp: hasCallId_def)
  with Some show ?thesis by (simp add: addToolResponse_def)
qed

lemma reduceToolCalls_kept:
  "i < length msgs \<Longrightarrow> toolCall (msgs ! i) = None \<Longrightarrow>
   i < length (reduceToolCalls clock rs msgs calls index) \<and>
   reduceToolCalls clock rs msgs calls index ! i = msgs ! i"
proof (induction calls arbitrary: msgs index)
  case Nil
  then show ?case by simp
next
  case (Cons tc calls)
  let ?next = "addToolResponse (clock index) msgs tc (responseAt rs index)"
  have "i < length ?next"
    using Cons.prems(1) length_addToolResponse[of msgs "clock index" tc "responseAt rs index"] by simp
  moreover have same: "?next ! i = msgs ! i"
    using Cons.prems by (rule nth_addToolResponse_kept)
  ultimately show ?case using Cons.IH[of ?next "Suc index"] Cons.prems(2) by simp
qed

lemma reducer_kept:
  assumes "updateMessagesFromChunk clock msgs chunk = Inr msgs'"
    and "i < length msgs" "ChatMessage.role (msgs ! i) \<noteq> Agent" "toolCall (msgs ! i) = None"
  shows "i < length msgs' \<and> msgs' ! i = msgs ! i"
  using reducer_cases[OF assms(1)]
proof (elim disjE exE)
  assume "msgs' = msgs"
  with assms(2) show ?thesis by simp
next
  fix d f assume "msgs' = updateChunk (clock 0) msgs d f"
  with assms(2,3) length_updateChunk[of msgs "clock 0" d f] show ?thesis
    by (simp add: nth_updateChunk_kept)
next
  fix rs assume "msgs' = reduceToolCalls clock rs msgs (toolCallsOf chunk) 0"
  with reduceToolCalls_kept[OF assms(2,4)] show ?thesis by simp
qed

lemma consume_kept:
  "consume msgs steps = Inr msgs' \<Longrightarrow> i < length msgs \<Longrightarrow>
   ChatMessage.role (msgs ! i) \<noteq> Agent \<Longrightarrow> toolCall (msgs ! i) = None \<Longrightarrow>
   i < length msgs' \<and> msgs' ! i = msgs ! i"
proof (induction steps arbitrary: msgs)
  case Nil
  then show ?case by simp
next
  case (Cons step steps)
  obtain clock chunk where step: "step = (clock, chunk)" by (cases step)
  with Cons.prems(1) obtain mid where mid: "updateMessagesFromChunk clock msgs chunk = Inr mid"
      "consume mid steps = Inr msgs'"
    by (auto split: sum.splits)
  from reducer_kept[OF mid(1) Cons.prems(2,3,4)] have m: "i < length mid" "mid ! i = msgs ! i" by simp_all
  from Cons.IH[OF mid(2) m(1)] m(2) Cons.prems(3,4) show ?case by simp
qed

lemma userRequest_kept:
  assumes "consume (addUserRequest now msgs q) steps = Inr msgs'"
  shows "length msgs < length msgs' \<and>
         msgs' ! length msgs = \<lparr>ChatMessage.role = User, content = q, createdAt = now, toolCall = None\<rparr>"
  using consume_kept[OF assms, of "length msgs"]
  by (simp add: addUserRequest_def)

text \<open>The definitions that evaluate a concrete submission.\<close>

lemmas driver_eval =
  handleSubmit_def sessionPhase_def createSessionThenTurn_def turnPhase_def
  failed_def envWith_def idleState_def streamRaising_def streamDone_def addUserRequest_def
  updateMessagesFromChunk_def textProgress_def turnStart_def turnComplete_def chunkOf_def
  updateChunk_def updateMessage_def js_plus_def userMsg_def agentMsg_def afterFirst_def
  afterFailedCreate_def

text \<open>
  Claim C8, as stated, fails on the text of the error: the \<^verbatim>\<open>catch\<close> block shows the
  message of the thrown value only when it is an instance of \<^verbatim>\<open>Error\<close>.  A stream
  that throws the plain object \<^verbatim>\<open>{ message: "boom" }\<close> after one text delta leaves the
  fixed text \<^verbatim>\<open>An unexpected error occurred\<close>.
\<close>

theorem C8_non_error_value_shows_fixed_text:
  "handleSubmit (envWith (Inr ''s1'') (Inr (streamRaising (OtherValue (Some ''boom''))))) (idleState ''hi'') =
     Inr (\<lparr>queryText = Some [], sessionId = Some ''s1'',
           messages = [userMsg ''hi'' 1, agentMsg ''A'' 2],
           isStreaming = False,
           error = Some ''An unexpected error occurred''\<rparr>,
          [SessionCreate, TurnCreate ''s1'' ''/proxy'' (Some ''hi'')]) \<and>
   failureMessage (OtherValue (Some ''boom'')) = Some ''boom'' \<and>
   Some ''An unexpected error occurred'' \<noteq> failureMessage (OtherValue (Some ''boom''))"
  by (simp add: handleSubmit_def sessionPhase_def createSessionThenTurn_def turnPhase_def
      failed_def envWith_def idleState_def streamRaising_def addUserRequest_def
      updateMessagesFromChunk_def textProgress_def chunkOf_def updateChunk_def updateMessage_def
      js_plus_def userMsg_def agentMsg_def)

text \<open>
  Claim C8, amended.  Let the configuration be resolved, a session be stored or created,
  and the turn stream be opened; let the stream raise \<open>e\<close> after the chunks it yielded
  have been reduced.  Then the handler returns with the store holding exactly the fold
  of those chunks over the store extended by the user message (nothing is rolled back,
  the user message is still at its position), the streaming indicator cleared, and one
  error text: the message of \<open>e\<close> when \<open>e\<close> is an instance of \<^verbatim>\<open>Error\<close>, the fixed text
  \<^verbatim>\<open>An unexpected error occurred\<close> otherwise.
\<close>

theorem C8_stream_error_keeps_partial_state:
  assumes "truthy (persaiUrl env)"
    and "truthy (datasourcePath env)"
    and "truthy (sessionId st) \<or> (\<exists>sid. sessionCreateResult env = Inr sid)"
    and "turnCreateResult env = Inr response"
    and "ending response = Raises e"
    and "consume (addUserRequest (userClock env) (messages st) (queryText st)) (chunks response) = Inr msgs"
  shows "\<exists>st' calls. handleSubmit env st = Inr (st', calls) \<and>
           messages st' = msgs \<and>
           length (messages st) < length msgs \<and>
           msgs ! length (messages st) =
             \<lparr>ChatMessage.role = User, content = queryText st, createdAt = userClock env,
              toolCall = None\<rparr> \<and>
           isStreaming st' = False \<and>
           error st' = Some (errorText e) \<and>
           (\<forall>m. e = ErrorInstance m \<longrightarrow> error st' = Some m)"
proof -
  obtain path where path: "datasourcePath env = Some path" "path \<noteq> []"
    using assms(2) by (cases "datasourcePath env") auto
  let ?st1 = "st\<lparr>error := None,
                  messages := addUserRequest (userClock env) (messages st) (queryText st),
                  queryText := Some [], isStreaming := True\<rparr>"
  have hs: "handleSubmit env st = sessionPhase env ?st1 path (queryText st)"
    using assms(1) path by (simp add: handleSubmit_def)
  have turn: "\<exists>st' calls. turnPhase env s sid path (queryText st) cs = Inr (st', calls) \<and>
      messages st' = msgs \<and> isStreaming st' = False \<and> error st' = Some (errorText e)"
    if "messages s = addUserRequest (userClock env) (messages st) (queryText st)" for s sid cs
    using that assms(4,5,6) by (simp add: turnPhase_def failed_def)
  have "\<exists>st' calls. sessionPhase env ?st1 path (queryText st) = Inr (st', calls) \<and>
      messages st' = msgs \<and> isStreaming st' = False \<and> error st' = Some (errorText e)"
  proof (cases "truthy (sessionId st)")
    case True
    then obtain sid where "sessionId st = Some sid" "sid \<noteq> []"
      by (cases "sessionId st") auto
    with turn[of ?st1 sid "[]"] show ?thesis by (simp add: sessionPhase_def)
  next
    case False
    with assms(3) obtain sid where sid: "sessionCreateResult env = Inr sid" by blast
    from False have "sessionPhase env ?st1 path (queryText st) =
        createSessionThenTurn env ?st1 path (queryText st)"
      by (cases "sessionId st") (auto simp: sessionPhase_def)
    with sid turn[of "?st1\<lparr>sessionId := Some sid\<rparr>" sid "[SessionCreate]"] show ?thesis
      by (simp add: createSessionThenTurn_def)
  qed
  with hs userRequest_kept[OF assms(6)] show ?thesis by auto
qed

theorem C8_stream_error_witness:
  "\<exists>st' calls.
     handleSubmit (envWith (Inr ''s1'') (Inr (streamRaising (ErrorInstance ''Stream interrupted''))))
       (idleState ''hi'') = Inr (st', calls) \<and>
     messages st' = [userMsg ''hi'' 1, agentMsg ''A'' 2] \<and>
     isStreaming st' = False \<and>
     error st' = Some ''Stream interrupted''"
proof -
  let ?env = "envWith (Inr ''s1'') (Inr (streamRaising (ErrorInstance ''Stream interrupted'')))"
  have h1: "truthy (persaiUrl ?env)" and h2: "truthy (datasourcePath ?env)"
    and h3: "truthy (sessionId (idleState ''hi'')) \<or> (\<exists>sid. sessionCreateResult ?env = Inr sid)"
    and h4: "turnCreateResult ?env = Inr (streamRaising (ErrorInstance ''Stream interrupted''))"
    and h5: "ending (streamRaising (ErrorInstance ''Stream interrupted'')) =
               Raises (ErrorInstance ''Stream interrupted'')"
    by (simp_all add: envWith_def streamRaising_def)
  have h6: "consume (addUserRequest (userClock ?env) (messages (idleState ''hi'')) (queryText (idleState ''hi'')))
              (chunks (streamRaising (ErrorInstance ''Stream interrupted''))) =
            Inr [userMsg ''hi'' 1, agentMsg ''A'' 2]"
    by (simp add: envWith_def idleState_def streamRaising_def addUserRequest_def
        updateMessagesFromChunk_def textProgress_def chunkOf_def updateChunk_def updateMessage_def
        js_plus_def userMsg_def agentMsg_def)
  from C8_stream_error_keeps_partial_state[OF h1 h2 h3 h4 h5 h6] show ?thesis
    by auto
qed

section \<open>The driver: session reuse\<close>

lemma turnPhase_calls:
  assumes "turnPhase env st sid path message calls = Inr (st', calls')"
  shows "sessionId st' = sessionId st \<and> calls' = calls @ [TurnCreate sid path message]"
  using assms
  by (auto simp: turnPhase_def failed_def split: sum.splits stream_end.splits)

lemma submit_with_stored_session:
  assumes "sessionId st = Some sid" "sid \<noteq> []" "handleSubmit env st = Inr (st', calls)"
  shows "sessionId st' = Some sid \<and> SessionCreate \<notin> set calls \<and>
         (\<forall>path. truthy (persaiUrl env) \<and> datasourcePath env = Some path \<and> path \<noteq> [] \<longrightarrow>
            calls = [TurnCreate sid path (queryText st)])"
proof (cases "truthy (persaiUrl env) \<and> truthy (datasourcePath env)")
  case False
  then have "handleSubmit env st = Inr (st\<lparr>error := Some missingUrlText\<rparr>, []) \<or>
             handleSubmit env st = Inr (st\<lparr>error := Some missingPathText\<rparr>, [])"
    by (cases "datasourcePath env") (auto simp: handleSubmit_def)
  with assms False show ?thesis by auto
next
  case True
  then obtain path where path: "datasourcePath env = Some path" "path \<noteq> []"
    by (cases "datasourcePath env") auto
  let ?st1 = "st\<lparr>error := None,
                  messages := addUserRequest (userClock env) (messages st) (queryText st),
                  queryText := Some [], isStreaming := True\<rparr>"
  have "handleSubmit env st = turnPhase env ?st1 sid path (queryText st) []"
    using True path assms(1,2) by (simp add: handleSubmit_def sessionPhase_def)
  with assms(3) turnPhase_calls[of env ?st1 sid path "queryText st" "[]" st' calls] assms(1) path
  show ?thesis by simp
qed

lemma submit_creating_session:
  assumes "\<not> truthy (sessionId st)" "truthy (persaiUrl env)" "datasourcePath env = Some path"
    "path \<noteq> []" "sessionCreateResult env = Inr sid" "handleSubmit env st = Inr (st', calls)"
  shows "sessionId st' = Some sid \<and> calls = [SessionCreate, TurnCreate sid path (queryText st)]"
proof -
  let ?st1 = "st\<lparr>error := None,
                  messages := addUserRequest (userClock env) (messages st) (queryText st),
                  queryText := Some [], isStreaming := True\<rparr>"
  have "sessionPhase env ?st1 path (queryText st) = createSessionThenTurn env ?st1 path (queryText st)"
    using assms(1) by (cases "sessionId st") (auto simp: sessionPhase_def)
  then have "handleSubmit env st =
      turnPhase env (?st1\<lparr>sessionId := Some sid\<rparr>) sid path (queryText st) [SessionCreate]"
    using assms(2,3,4,5) by (simp add: handleSubmit_def createSessionThenTurn_def)
  with assms(6)
    turnPhase_calls[of env "?st1\<lparr>sessionId := Some sid\<rparr>" sid path "queryText st" "[SessionCreate]" st' calls]
  show ?thesis by simp
qed

text \<open>
  Claim C9, as stated, fails in two ways.  The stored identifier is tested for
  truthiness, so a session whose identifier is the empty string is created again by the
  next submission: two sequential successful submissions make two session-creation
  calls.  And a submission retried after a failed session creation finds no identifier
  stored and calls session creation again.
\<close>

theorem C9_session_created_again:
  "handleSubmit (envWith (Inr []) (Inr streamDone)) (idleState ''hi'') =
     Inr (afterFirst [], [SessionCreate, TurnCreate [] ''/proxy'' (Some ''hi'')]) \<and>
   map_sum id snd
     (handleSubmit (envWith (Inr []) (Inr streamDone)) ((afterFirst [])\<lparr>queryText := Some ''again''\<rparr>)) =
     Inr [SessionCreate, TurnCreate [] ''/proxy'' (Some ''again'')] \<and>
   handleSubmit (envWith (Inl (ErrorInstance ''Network error'')) (Inr streamDone)) (idleState ''hi'') =
     Inr (afterFailedCreate, [SessionCreate]) \<and>
   map_sum id snd
     (handleSubmit (envWith (Inr ''s1'') (Inr streamDone)) (afterFailedCreate\<lparr>queryText := Some ''hi''\<rparr>)) =
     Inr [SessionCreate, TurnCreate ''s1'' ''/proxy'' (Some ''hi'')]"
  by (simp add: driver_eval)

text \<open>
  Claim C9, amended.  Once a non-empty session identifier is stored, no submission
  creates a session: whatever the outcome, the identifier stays stored and the calls
  contain no session creation; with the configuration resolved, the submission makes
  exactly one turn-creation call, with the stored identifier.  A submission that finds no
  identifier stored and whose session creation returns a non-empty identifier stores it,
  whether or not the turn then fails; it makes one session-creation call and one
  turn-creation call, and the submission after it makes one turn-creation call with the
  same identifier: one session creation and two turn creations in all.
\<close>

theorem C9_session_created_once_when_id_nonempty:
  "(sessionId st = Some sid \<and> sid \<noteq> [] \<and> handleSubmit env st = Inr (st', calls) \<longrightarrow>
      sessionId st' = Some sid \<and> SessionCreate \<notin> set calls \<and>
      (\<forall>path. truthy (persaiUrl env) \<and> datasourcePath env = Some path \<and> path \<noteq> [] \<longrightarrow>
         calls = [TurnCreate sid path (queryText st)])) \<and>
   (\<not> truthy (sessionId st0) \<and>
    truthy (persaiUrl env1) \<and> datasourcePath env1 = Some path1 \<and> path1 \<noteq> [] \<and>
    sessionCreateResult env1 = Inr sid1 \<and> sid1 \<noteq> [] \<and>
    handleSubmit env1 st0 = Inr (st1, calls1) \<and>
    sessionId st1' = sessionId st1 \<and>
    truthy (persaiUrl env2) \<and> datasourcePath env2 = Some path2 \<and> path2 \<noteq> [] \<and>
    handleSubmit env2 st1' = Inr (st2, calls2) \<longrightarrow>
      calls1 @ calls2 =
        [SessionCreate, TurnCreate sid1 path1 (queryText st0), TurnCreate sid1 path2 (queryText st1')] \<and>
      sessionId st1 = Some sid1 \<and> sessionId st2 = Some sid1)"
proof -
  have stored: "sessionId st = Some sid \<and> sid \<noteq> [] \<and> handleSubmit env st = Inr (st', calls) \<longrightarrow>
      sessionId st' = Some sid \<and> SessionCreate \<notin> set calls \<and>
      (\<forall>path. truthy (persaiUrl env) \<and> datasourcePath env = Some path \<and> path \<noteq> [] \<longrightarrow>
         calls = [TurnCreate sid path (queryText st)])"
    using submit_with_stored_session[of st sid env st' calls] by blast
  have twice: "\<not> truthy (sessionId st0) \<and>
    truthy (persaiUrl env1) \<and> datasourcePath env1 = Some path1 \<and> path1 \<noteq> [] \<and>
    sessionCreateResult env1 = Inr sid1 \<and> sid1 \<noteq> [] \<and>
    handleSubmit env1 st0 = Inr (st1, calls1) \<and>
    sessionId st1' = sessionId st1 \<and>
    truthy (persaiUrl env2) \<and> datasourcePath env2 = Some path2 \<and> path2 \<noteq> [] \<and>
    handleSubmit env2 st1' = Inr (st2, calls2) \<longrightarrow>
      calls1 @ calls2 =
        [SessionCreate, TurnCreate sid1 path1 (queryText st0), TurnCreate sid1 path2 (queryText st1')] \<and>
      sessionId st1 = Some sid1 \<and> sessionId st2 = Some sid1"
  proof
    assume b: "\<not> truthy (sessionId st0) \<and>
      truthy (persaiUrl env1) \<and> datasourcePath env1 = Some path1 \<and> path1 \<noteq> [] \<and>
      sessionCreateResult env1 = Inr sid1 \<and> sid1 \<noteq> [] \<and>
      handleSubmit env1 st0 = Inr (st1, calls1) \<and>
      sessionId st1' = sessionId st1 \<and>
      truthy (persaiUrl env2) \<and> datasourcePath env2 = Some path2 \<and> path2 \<noteq> [] \<and>
      handleSubmit env2 st1' = Inr (st2, calls2)"
    then have first: "sessionId st1 = Some sid1 \<and>
        calls1 = [SessionCreate, TurnCreate sid1 path1 (queryText st0)]"
      using submit_creating_session[of st0 env1 path1 sid1 st1 calls1] by blast
    with b have "sessionId st1' = Some sid1" by simp
    with b have second: "sessionId st2 = Some sid1 \<and>
        calls2 = [TurnCreate sid1 path2 (queryText st1')]"
      using submit_with_stored_session[of st1' sid1 env2 st2 calls2] by blast
    from first second show "calls1 @ calls2 =
          [SessionCreate, TurnCreate sid1 path1 (queryText st0), TurnCreate sid1 path2 (queryText st1')] \<and>
        sessionId st1 = Some sid1 \<and> sessionId st2 = Some sid1" by simp
  qed
  from stored twice show ?thesis by (rule conjI)
qed

theorem C9_session_created_once_witness:
  "handleSubmit (envWith (Inr ''s1'') (Inr streamDone)) (idleState ''hi'') =
     Inr (afterFirst ''s1'', [SessionCreate, TurnCreate ''s1'' ''/proxy'' (Some ''hi'')]) \<and>
   (\<exists>st2 calls2.
      handleSubmit (envWith (Inr ''s2'') (Inr (streamRaising (ErrorInstance ''Stream interrupted''))))
        ((afterFirst ''s1'')\<lparr>queryText := Some ''again''\<rparr>) = Inr (st2, calls2) \<and>
      [SessionCreate, TurnCreate ''s1'' ''/proxy'' (Some ''hi'')] @ calls2 =
        [SessionCreate, TurnCreate ''s1'' ''/proxy'' (Some ''hi''),
         TurnCreate ''s1'' ''/proxy'' (Some ''again'')] \<and>
      sessionId st2 = Some ''s1'')"
proof -
  let ?env1 = "envWith (Inr ''s1'') (Inr streamDone)"
  let ?env2 = "envWith (Inr ''s2'') (Inr (streamRaising (ErrorInstance ''Stream interrupted'')))"
  let ?st1' = "(afterFirst ''s1'')\<lparr>queryText := Some ''again''\<rparr>"
  have e1: "handleSubmit ?env1 (idleState ''hi'') =
     Inr (afterFirst ''s1'', [SessionCreate, TurnCreate ''s1'' ''/proxy'' (Some ''hi'')])"
    by (simp add: driver_eval)
  have "\<exists>st2 calls2. handleSubmit ?env2 ?st1' = Inr (st2, calls2)"
    by (simp add: driver_eval)
  then obtain st2 calls2 where e2: "handleSubmit ?env2 ?st1' = Inr (st2, calls2)" by blast
  have hyps: "\<not> truthy (sessionId (idleState ''hi'')) \<and>
      truthy (persaiUrl ?env1) \<and> datasourcePath ?env1 = Some ''/proxy'' \<and> ''/proxy'' \<noteq> [] \<and>
      sessionCreateResult ?env1 = Inr ''s1'' \<and> ''s1'' \<noteq> [] \<and>
      sessionId ?st1' = sessionId (afterFirst ''s1'') \<and>
      truthy (persaiUrl ?env2) \<and> datasourcePath ?env2 = Some ''/proxy''"
    by (simp add: envWith_def idleState_def afterFirst_def)
  from C9_session_created_once_when_id_nonempty
    [THEN conjunct2, of "idleState ''hi''" ?env1 "''/proxy''" "''s1''" "afterFirst ''s1''"
      "[SessionCreate, TurnCreate ''s1'' ''/proxy'' (Some ''hi'')]" ?st1' ?env2 "''/proxy''" st2 calls2]
    hyps e1 e2
  have "[SessionCreate, TurnCreate ''s1'' ''/proxy'' (Some ''hi'')] @ calls2 =
        [SessionCreate, TurnCreate ''s1'' ''/proxy'' (queryText (idleState ''hi'')),
         TurnCreate ''s1'' ''/proxy'' (queryText ?st1')] \<and> sessionId st2 = Some ''s1''"
    by blast
  moreover have "queryText ?st1' = Some ''again''" "queryText (idleState ''hi'') = Some ''hi''"
    by (simp_all add: idleState_def)
  ultimately have "[SessionCreate, TurnCreate ''s1'' ''/proxy'' (Some ''hi'')] @ calls2 =
        [SessionCreate, TurnCreate ''s1'' ''/proxy'' (Some ''hi''),
         TurnCreate ''s1'' ''/proxy'' (Some ''again'')] \<and> sessionId st2 = Some ''s1''"
    by simp
  with e1 e2 show ?thesis by blast
qed

end
